theory Spec2Isabelle
  imports Complex_Main
begin

section \<open>The host: JavaScript numbers, the DOM store and the observable effects\<close>

text \<open>
  The content script exists in two revisions: \<^verbatim>\<open>src/content.js\<close> (the later one, which
  clamps the cursor) and \<^verbatim>\<open>src/unnamed/part_000\<close> (the earlier one, which wraps it).
  The functions of \<^verbatim>\<open>content.js\<close> keep their names; those of \<^verbatim>\<open>part_000\<close> carry the
  suffix \<open>_p0\<close>. \<^verbatim>\<open>extractSearchResults\<close> is the same text in both files and is
  embedded once.
\<close>

text \<open>
  A JavaScript number, as far as this program can produce one: an integer (array lengths,
  indices, \<open>length - 1\<close>) or \<open>NaN\<close> (the remainder by a length of zero in
  \<^verbatim>\<open>part_000\<close>). Array lengths stay below \<open>2^32\<close>, so no integer here leaves the range a
  double represents exactly. The two zeros of a double are one value \<open>Num 0\<close>: the program
  only compares the cursor with \<open>===\<close> and uses it as an array index, and neither tells
  them apart.
\<close>

datatype jsnum = Num int | NaN

fun js_add :: "jsnum \<Rightarrow> jsnum \<Rightarrow> jsnum" where
  "js_add (Num a) (Num b) = Num (a + b)"
| "js_add _ _ = NaN"

fun js_sub :: "jsnum \<Rightarrow> jsnum \<Rightarrow> jsnum" where
  "js_sub (Num a) (Num b) = Num (a - b)"
| "js_sub _ _ = NaN"

text \<open>The operator \<open>%\<close>: the remainder takes the sign of the dividend, and \<open>x % 0\<close> is \<open>NaN\<close>.\<close>

fun js_rem :: "jsnum \<Rightarrow> jsnum \<Rightarrow> jsnum" where
  "js_rem (Num a) (Num b) = (if b = 0 then NaN else Num (sgn a * (\<bar>a\<bar> mod \<bar>b\<bar>)))"
| "js_rem _ _ = NaN"

fun Math_min :: "jsnum \<Rightarrow> jsnum \<Rightarrow> jsnum" where
  "Math_min (Num a) (Num b) = Num (min a b)"
| "Math_min _ _ = NaN"

fun Math_max :: "jsnum \<Rightarrow> jsnum \<Rightarrow> jsnum" where
  "Math_max (Num a) (Num b) = Num (max a b)"
| "Math_max _ _ = NaN"

text \<open>The comparison \<open><=\<close>: false as soon as one side is \<open>NaN\<close>.\<close>

fun js_le :: "jsnum \<Rightarrow> jsnum \<Rightarrow> bool" where
  "js_le (Num a) (Num b) = (a \<le> b)"
| "js_le _ _ = False"

text \<open>
  Elements are object references: the store identifies each by a number, and \<open>===\<close> on
  elements is equality of these numbers.
\<close>

type_synonym elem = nat

text \<open>
  An array read \<open>xs[i]\<close>: the element when \<open>i\<close> is an integer index inside the array,
  \<open>undefined\<close> (here \<open>None\<close>) for every other number, \<open>NaN\<close> and negative ones included.
\<close>

fun js_index :: "'a list \<Rightarrow> jsnum \<Rightarrow> 'a option" where
  "js_index xs (Num i) = (if 0 \<le> i \<and> i < int (length xs) then Some (xs ! nat i) else None)"
| "js_index xs NaN = None"

record domrect =
  rect_top :: real
  rect_bottom :: real

text \<open>
  What the script reads from the page and the one thing it writes to it. The fields are
  the DOM calls of the source, as the browser answers them: \<open>elements\<close> lists the
  elements of the document in tree order (the range of \<^verbatim>\<open>document.querySelectorAll\<close>);
  \<open>querySelectorAll\<close> and \<open>querySelector\<close> are the element-rooted queries by tag
  (\<^verbatim>\<open>searchElement.querySelectorAll("h3")\<close>, \<^verbatim>\<open>element.querySelector("a")\<close>), whose
  answers the script takes as they come; \<open>parentElement\<close> is \<open>None\<close> where the DOM
  returns \<open>null\<close>, at the root of a document as at the top of a detached subtree;
  \<open>classList\<close> is the only field the script changes. An element that is not in
  \<open>elements\<close> is one the script still holds a reference to while the document no longer
  contains it.
\<close>

record document =
  elements :: "elem list"
  activeElement :: "elem option"
  tagName :: "elem \<Rightarrow> string"
  getAttribute :: "elem \<Rightarrow> string \<Rightarrow> string option"
  parentElement :: "elem \<Rightarrow> elem option"
  classList :: "elem \<Rightarrow> string list"
  querySelectorAll :: "elem \<Rightarrow> string \<Rightarrow> elem list"
  querySelector :: "elem \<Rightarrow> string \<Rightarrow> elem option"
  href :: "elem \<Rightarrow> string"
  getBoundingClientRect :: "elem \<Rightarrow> domrect"
  innerHeight :: real

text \<open>Everything the script does to the outside, in the order it does it.\<close>

datatype effect =
    PreventDefault
  | ConsoleError string "jsnum list"
  | ConsoleLog elem
  | ScrollTo int
  | ScrollIntoView elem string
  | WindowOpen string string
  | LocationAssign string

record State =
  searchResults :: "elem list"
  selectedIndex :: jsnum

text \<open>
  The module-level variables (\<open>state\<close>, \<open>lastGKeyPress\<close>) together with the page and the
  trace of effects. \<^verbatim>\<open>part_000\<close> has no \<open>lastGKeyPress\<close>; its functions leave the field
  alone.
\<close>

record world =
  dom :: document
  state :: State
  lastGKeyPress :: int
  effects :: "effect list"

record event =
  key :: string
  metaKey :: bool
  ctrlKey :: bool
  shiftKey :: bool

definition emit :: "effect \<Rightarrow> world \<Rightarrow> world" where
  "emit e w = w\<lparr>effects := effects w @ [e]\<rparr>"

definition set_selectedIndex :: "jsnum \<Rightarrow> world \<Rightarrow> world" where
  "set_selectedIndex n w = w\<lparr>state := (state w)\<lparr>selectedIndex := n\<rparr>\<rparr>"

definition results_length :: "world \<Rightarrow> jsnum" where
  "results_length w = Num (int (length (searchResults (state w))))"

definition highlightClass :: string where
  "highlightClass = ''gscss-highlight''"

text \<open>\<^verbatim>\<open>classList.remove\<close> and \<^verbatim>\<open>classList.add\<close> of a token list.\<close>

definition classList_remove :: "string \<Rightarrow> document \<Rightarrow> elem \<Rightarrow> document" where
  "classList_remove c d e = d\<lparr>classList := (classList d)(e := removeAll c (classList d e))\<rparr>"

definition classList_add :: "string \<Rightarrow> elem \<Rightarrow> document \<Rightarrow> document" where
  "classList_add c e d =
     d\<lparr>classList := (classList d)
        (e := (if c \<in> set (classList d e) then classList d e else classList d e @ [c]))\<rparr>"

text \<open>\<^verbatim>\<open>document.querySelectorAll(".gscss-highlight")\<close>: a static list, in document order.\<close>

definition highlightedElements :: "document \<Rightarrow> elem list" where
  "highlightedElements d = filter (\<lambda>e. highlightClass \<in> set (classList d e)) (elements d)"

section \<open>content.js\<close>

definition clamp :: "jsnum \<Rightarrow> jsnum \<Rightarrow> jsnum \<Rightarrow> jsnum" where
  "clamp value mn mx = Math_max mn (Math_min value mx)"

definition highlightSelected :: "world \<Rightarrow> world" where
  "highlightSelected w =
     (if length (searchResults (state w)) = 0 then w
      else
        case js_index (searchResults (state w)) (selectedIndex (state w)) of
          None \<Rightarrow>
            emit (ConsoleError ''Selected element is undefined''
                    [results_length w, selectedIndex (state w)]) w
        | Some element \<Rightarrow>
            let boundingRect = getBoundingClientRect (dom w) element;
                w1 = (if selectedIndex (state w) = Num 0 then emit (ScrollTo 0) w
                      else if rect_top boundingRect < 0
                              \<or> rect_bottom boundingRect > innerHeight (dom w)
                      then emit (ScrollIntoView element ''center'') w
                      else w);
                highlighted = highlightedElements (dom w1)
            in if length highlighted = 1 \<and> highlighted ! 0 = element then w1
               else w1\<lparr>dom := classList_add highlightClass element
                                (foldl (classList_remove highlightClass) (dom w1) highlighted)\<rparr>)"

text \<open>
  \<open>now\<close> holds what the two calls of \<^verbatim>\<open>Date.now()\<close> in the \<open>g\<close> branch return: the first
  component is compared with the armed timestamp, the second is stored.
\<close>

definition handleKeyDown :: "event \<Rightarrow> int \<times> int \<Rightarrow> world \<Rightarrow> world" where
  "handleKeyDown ev now w =
     (let activeElementName =
            (case activeElement (dom w) of None \<Rightarrow> '''' | Some a \<Rightarrow> tagName (dom w) a)
      in
      if activeElementName = ''INPUT'' \<or> activeElementName = ''TEXTAREA'' then w
      else if key ev = ''j'' \<or> key ev = ''ArrowDown'' then
        (let w1 = emit PreventDefault w
         in highlightSelected
              (set_selectedIndex
                 (clamp (js_add (selectedIndex (state w1)) (Num 1)) (Num 0)
                    (js_sub (results_length w1) (Num 1))) w1))
      else if key ev = ''k'' \<or> key ev = ''ArrowUp'' then
        (let w1 = emit PreventDefault w
         in highlightSelected
              (set_selectedIndex
                 (clamp (js_sub (selectedIndex (state w1)) (Num 1)) (Num 0)
                    (js_sub (results_length w1) (Num 1))) w1))
      else if key ev = '' '' \<or> key ev = ''Enter'' then
        (let w1 = emit PreventDefault w
         in case js_index (searchResults (state w1)) (selectedIndex (state w1)) of
              None \<Rightarrow> emit (ConsoleError ''Selected element is undefined'' []) w1
            | Some element \<Rightarrow>
                (case querySelector (dom w1) element ''a'' of
                   None \<Rightarrow> emit (ConsoleError ''Link not found'' []) w1
                 | Some link \<Rightarrow>
                     if metaKey ev then emit (WindowOpen (href (dom w1) link) ''_blank'') w1
                     else emit (LocationAssign (href (dom w1) link)) w1))
      else if key ev = ''G'' \<or> key ev = ''g'' then
        (if metaKey ev \<or> ctrlKey ev then w
         else
           let w1 = emit PreventDefault w
           in if shiftKey ev then
                highlightSelected (set_selectedIndex (js_sub (results_length w1) (Num 1)) w1)
              else if lastGKeyPress w1 + 1000 > fst now then
                highlightSelected (set_selectedIndex (Num 0) w1)
              else w1\<lparr>lastGKeyPress := snd now\<rparr>)
      else w)"

text \<open>
  The walk up the parents in \<^verbatim>\<open>extractSearchResults\<close>. Nothing in the source bounds it: it
  ends because the page is a tree. As a function of an arbitrary \<open>parentElement\<close> it is
  partial, and \<open>None\<close> stands for a walk that never ends.
\<close>

partial_function (option) walkUp :: "document \<Rightarrow> elem \<Rightarrow> effect list \<Rightarrow> (elem \<times> effect list) option" where
  "walkUp d highestParent fx =
     (if getAttribute d highestParent ''lang'' = None then
        (case parentElement d highestParent of
           None \<Rightarrow> Some (highestParent, fx @ [ConsoleError ''Parent element is null'' []])
         | Some p \<Rightarrow> walkUp d p fx)
      else Some (highestParent, fx))"

fun extractLoop :: "document \<Rightarrow> elem list \<Rightarrow> elem list \<Rightarrow> effect list \<Rightarrow> (elem list \<times> effect list) option" where
  "extractLoop d [] results fx = Some (results, fx)"
| "extractLoop d (heading # rest) results fx =
     (case walkUp d heading fx of
        None \<Rightarrow> None
      | Some (highestParent, fx') \<Rightarrow>
          if tagName d highestParent \<noteq> ''DIV'' then extractLoop d rest results fx'
          else extractLoop d rest (results @ [highestParent]) fx')"

definition extractSearchResults :: "document \<Rightarrow> elem \<Rightarrow> effect list \<Rightarrow> (elem list \<times> effect list) option" where
  "extractSearchResults d searchElement fx =
     extractLoop d (querySelectorAll d searchElement ''h3'') [] fx"

definition handleSearchResultsChanged :: "elem \<Rightarrow> world \<Rightarrow> world option" where
  "handleSearchResultsChanged searchElement w =
     (case extractSearchResults (dom w) searchElement (effects w) of
        None \<Rightarrow> None
      | Some (results, fx) \<Rightarrow>
          let shouldHighlight = js_le (results_length w) (selectedIndex (state w));
              w1 = w\<lparr>state := (state w)\<lparr>searchResults := results\<rparr>, effects := fx\<rparr>
          in Some (if shouldHighlight then highlightSelected w1 else w1))"

section \<open>part_000\<close>

definition highlightSelected_p0 :: "world \<Rightarrow> world" where
  "highlightSelected_p0 w =
     (case js_index (searchResults (state w)) (selectedIndex (state w)) of
        None \<Rightarrow> emit (ConsoleError ''Selected element is undefined'' []) w
      | Some element \<Rightarrow>
          let w0 = emit (ConsoleLog element) w;
              boundingRect = getBoundingClientRect (dom w0) element;
              w1 = (if rect_top boundingRect < 0
                       \<or> rect_bottom boundingRect > innerHeight (dom w0)
                    then emit (ScrollIntoView element ''center'') w0
                    else w0);
              highlighted = highlightedElements (dom w1)
          in if length highlighted = 1 \<and> highlighted ! 0 = element then w1
             else w1\<lparr>dom := classList_add highlightClass element
                              (foldl (classList_remove highlightClass) (dom w1) highlighted)\<rparr>)"

definition handleKeyDown_p0 :: "event \<Rightarrow> world \<Rightarrow> world" where
  "handleKeyDown_p0 ev w =
     (let activeElementName =
            (case activeElement (dom w) of None \<Rightarrow> '''' | Some a \<Rightarrow> tagName (dom w) a)
      in
      if activeElementName = ''INPUT'' \<or> activeElementName = ''TEXTAREA'' then w
      else if key ev = ''j'' \<or> key ev = ''ArrowDown'' then
        (let w1 = emit PreventDefault w
         in highlightSelected_p0
              (set_selectedIndex
                 (js_rem (js_add (selectedIndex (state w1)) (Num 1)) (results_length w1)) w1))
      else if key ev = ''k'' \<or> key ev = ''ArrowUp'' then
        (let w1 = emit PreventDefault w
         in highlightSelected_p0
              (set_selectedIndex
                 (js_rem (js_add (js_sub (selectedIndex (state w1)) (Num 1)) (results_length w1))
                    (results_length w1)) w1))
      else if key ev = '' '' \<or> key ev = ''Enter'' then
        (let w1 = emit PreventDefault w
         in case js_index (searchResults (state w1)) (selectedIndex (state w1)) of
              None \<Rightarrow> emit (ConsoleError ''Selected element is undefined'' []) w1
            | Some element \<Rightarrow>
                (case querySelector (dom w1) element ''a'' of
                   None \<Rightarrow> emit (ConsoleError ''Link not found'' []) w1
                 | Some link \<Rightarrow>
                     if metaKey ev then emit (WindowOpen (href (dom w1) link) ''_blank'') w1
                     else emit (LocationAssign (href (dom w1) link)) w1))
      else w)"

definition handleSearchResultsChanged_p0 :: "elem \<Rightarrow> world \<Rightarrow> world option" where
  "handleSearchResultsChanged_p0 searchElement w =
     (case extractSearchResults (dom w) searchElement (effects w) of
        None \<Rightarrow> None
      | Some (results, fx) \<Rightarrow>
          Some (highlightSelected_p0 (w\<lparr>state := (state w)\<lparr>searchResults := results\<rparr>, effects := fx\<rparr>)))"

section \<open>Vocabulary of the statements\<close>

text \<open>The guard at the head of both key handlers: the focus is in a text input.\<close>

definition inputFocused :: "world \<Rightarrow> bool" where
  "inputFocused w =
     (let activeElementName =
            (case activeElement (dom w) of None \<Rightarrow> '''' | Some a \<Rightarrow> tagName (dom w) a)
      in activeElementName = ''INPUT'' \<or> activeElementName = ''TEXTAREA'')"

definition isNext :: "event \<Rightarrow> bool" where
  "isNext ev = (key ev = ''j'' \<or> key ev = ''ArrowDown'')"

definition isPrev :: "event \<Rightarrow> bool" where
  "isPrev ev = (key ev = ''k'' \<or> key ev = ''ArrowUp'')"

definition isActivate :: "event \<Rightarrow> bool" where
  "isActivate ev = (key ev = '' '' \<or> key ev = ''Enter'')"

definition isG :: "event \<Rightarrow> bool" where
  "isG ev = (key ev = ''G'' \<or> key ev = ''g'')"

text \<open>A sequence of key events, each with the clock readings of its run.\<close>

definition runKeys :: "(event \<times> int \<times> int) list \<Rightarrow> world \<Rightarrow> world" where
  "runKeys evs w = foldl (\<lambda>w (ev, now). handleKeyDown ev now w) w evs"

definition runKeys_p0 :: "event list \<Rightarrow> world \<Rightarrow> world" where
  "runKeys_p0 evs w = foldl (\<lambda>w ev. handleKeyDown_p0 ev w) w evs"

text \<open>The invariant of the data model: the cursor is an index of the result list.\<close>

definition inRange :: "world \<Rightarrow> bool" where
  "inRange w =
     (case selectedIndex (state w) of
        Num i \<Rightarrow> 0 \<le> i \<and> i < int (length (searchResults (state w)))
      | NaN \<Rightarrow> False)"

text \<open>Whether an element carries the highlight marker.\<close>

definition marked :: "document \<Rightarrow> elem \<Rightarrow> bool" where
  "marked d e = (highlightClass \<in> set (classList d e))"

text \<open>
  What a completed run of the highlight does to the page, for the target element \<open>el\<close>:
  nothing when \<open>el\<close> is the one marked element of the document, otherwise the marker is
  removed from every marked element of the document and then added to \<open>el\<close>.
\<close>

definition moveMarker :: "document \<Rightarrow> elem \<Rightarrow> document" where
  "moveMarker d el =
     (if highlightedElements d = [el] then d
      else classList_add highlightClass el
             (foldl (classList_remove highlightClass) d (highlightedElements d)))"

text \<open>
  The world a refresh hands to the highlight: the new result list, and the console as
  the extraction left it.
\<close>

definition refreshed :: "world \<Rightarrow> elem list \<Rightarrow> effect list \<Rightarrow> world" where
  "refreshed w rs fx = w\<lparr>state := (state w)\<lparr>searchResults := rs\<rparr>, effects := fx\<rparr>"

text \<open>The two console messages the statements name.\<close>

definition undefinedError :: effect where
  "undefinedError = ConsoleError ''Selected element is undefined'' []"

definition parentNullError :: effect where
  "parentNullError = ConsoleError ''Parent element is null'' []"

text \<open>
  The worlds \<^verbatim>\<open>content.js\<close> can be in: it starts with an empty list and the cursor at 0;
  key events and refreshes run to completion one after the other; between them the page
  changes under the script.
\<close>

inductive reachable :: "world \<Rightarrow> bool" where
  start: "reachable \<lparr>dom = d, state = \<lparr>searchResults = [], selectedIndex = Num 0\<rparr>,
                      lastGKeyPress = 0, effects = []\<rparr>"
| keydown: "reachable w \<Longrightarrow> reachable (handleKeyDown ev now w)"
| refresh: "reachable w \<Longrightarrow> handleSearchResultsChanged se w = Some w' \<Longrightarrow> reachable w'"
| page: "reachable w \<Longrightarrow> reachable (w\<lparr>dom := d\<rparr>)"

section \<open>The extractor's specification\<close>

text \<open>
  The page is a tree: no element has an endless chain of parents. This is what makes the
  walk of \<^verbatim>\<open>extractSearchResults\<close> end.
\<close>

definition parentRel :: "document \<Rightarrow> (elem \<times> elem) set" where
  "parentRel d = {(e, p). parentElement d e = Some p}"

definition treeLike :: "document \<Rightarrow> bool" where
  "treeLike d = wf ((parentRel d)\<inverse>)"

definition hasLang :: "document \<Rightarrow> elem \<Rightarrow> bool" where
  "hasLang d e = (getAttribute d e ''lang'' \<noteq> None)"

text \<open>
  In the words of the specification: \<open>r\<close> is the nearest element with a language
  attribute on the chain that leads from the heading \<open>h\<close> (itself first) up through its
  ancestors.
\<close>

definition nearestLangAncestor :: "document \<Rightarrow> elem \<Rightarrow> elem \<Rightarrow> bool" where
  "nearestLangAncestor d h r =
     ((h, r) \<in> (parentRel d)\<^sup>* \<and> hasLang d r
      \<and> (\<forall>x. (h, x) \<in> (parentRel d)\<^sup>* \<and> (x, r) \<in> (parentRel d)\<^sup>+ \<longrightarrow> \<not> hasLang d x))"

text \<open>
  No element of the chain from \<open>h\<close> upwards has a language attribute, and \<open>t\<close> is the
  chain's topmost element, the one without a parent element.
\<close>

definition topmostWithoutLang :: "document \<Rightarrow> elem \<Rightarrow> elem \<Rightarrow> bool" where
  "topmostWithoutLang d h t =
     ((h, t) \<in> (parentRel d)\<^sup>* \<and> parentElement d t = None
      \<and> (\<forall>x. (h, x) \<in> (parentRel d)\<^sup>* \<longrightarrow> \<not> hasLang d x))"

definition resolvesTo :: "document \<Rightarrow> elem \<Rightarrow> elem \<Rightarrow> bool" where
  "resolvesTo d h r = (nearestLangAncestor d h r \<or> topmostWithoutLang d h r)"

section \<open>Example pages and worlds\<close>

text \<open>
  A small results page, used to run the theorems on concrete input. Element 0 is the
  \<open>HTML\<close> root and 1 the body, which has the focus; 2 is the results container; 3, 6 and
  12 are result blocks (\<open>DIV\<close> with a \<open>lang\<close> attribute), 3 with a link, 6 and 12 without;
  heading 9 sits in a \<open>SPAN\<close> that carries \<open>lang\<close>; heading 10 has no ancestor with \<open>lang\<close>
  at all; 11 is the search box. Block 3 carries the highlight marker.
\<close>

definition samplePage :: document where
  "samplePage =
     \<lparr>elements = [0, 1, 2, 3, 4, 5, 6, 7, 8, 9, 10, 12, 13, 11],
      activeElement = Some 1,
      tagName = (\<lambda>e. if e = 0 then ''HTML'' else if e = 1 then ''BODY''
                     else if e = 2 \<or> e = 3 \<or> e = 6 \<or> e = 12 then ''DIV''
                     else if e = 4 \<or> e = 7 \<or> e = 9 \<or> e = 10 \<or> e = 13 then ''H3''
                     else if e = 5 then ''A'' else if e = 8 then ''SPAN'' else ''INPUT''),
      getAttribute = (\<lambda>e a. if a = ''lang'' \<and> (e = 3 \<or> e = 6 \<or> e = 8 \<or> e = 12)
                            then Some ''en'' else None),
      parentElement = map_of [(1, 0), (2, 1), (3, 2), (4, 3), (5, 3), (6, 2), (7, 6), (8, 2),
                              (9, 8), (10, 2), (11, 1), (12, 2), (13, 12)],
      classList = (\<lambda>e. if e = 3 then [''g'', ''gscss-highlight''] else []),
      querySelectorAll = (\<lambda>e sel. if e = 2 \<and> sel = ''h3'' then [4, 7, 9, 10, 13] else []),
      querySelector = (\<lambda>e sel. if e = 3 \<and> sel = ''a'' then Some 5 else None),
      href = (\<lambda>e. ''https://example.org/''),
      getBoundingClientRect = (\<lambda>e. \<lparr>rect_top = 10, rect_bottom = 50\<rparr>),
      innerHeight = 800\<rparr>"

text \<open>The script in front of that page, holding two results with the cursor on the first.\<close>

definition sampleWorld :: world where
  "sampleWorld =
     \<lparr>dom = samplePage,
      state = \<lparr>searchResults = [3, 6], selectedIndex = Num 0\<rparr>,
      lastGKeyPress = 0,
      effects = []\<rparr>"

text \<open>A key pressed without any modifier.\<close>

definition pressed :: "string \<Rightarrow> event" where
  "pressed k = \<lparr>key = k, metaKey = False, ctrlKey = False, shiftKey = False\<rparr>"

text \<open>
  Any world, put into the situation of the boundary example: five result entries, the
  cursor on the last one, the focus outside any input.
\<close>

definition fiveAtLast :: "world \<Rightarrow> elem \<Rightarrow> elem \<Rightarrow> elem \<Rightarrow> elem \<Rightarrow> elem \<Rightarrow> world" where
  "fiveAtLast w a b c d e =
     w\<lparr>dom := (dom w)\<lparr>activeElement := None\<rparr>,
       state := \<lparr>searchResults = [a, b, c, d, e], selectedIndex = Num 4\<rparr>\<rparr>"

text \<open>
  The example world after the script lost all its results while the cursor stood on the
  fifth entry of a longer list: an empty list with a cursor left over at 4.
\<close>

definition emptiedWorld :: world where
  "emptiedWorld = sampleWorld\<lparr>state := \<lparr>searchResults = [], selectedIndex = Num 4\<rparr>\<rparr>"

text \<open>
  The example page seen by a script that so far knows only its first result, with the
  cursor on it: the refresh then finds that result and two more.
\<close>

definition oneResultWorld :: world where
  "oneResultWorld =
     \<lparr>dom = samplePage,
      state = \<lparr>searchResults = [3], selectedIndex = Num 0\<rparr>,
      lastGKeyPress = 0,
      effects = []\<rparr>"

text \<open>
  The example page after its results are gone, and a world in front of it that still
  holds two results and a cursor at 4, left over from a longer list.
\<close>

definition emptyPage :: document where
  "emptyPage = samplePage\<lparr>querySelectorAll := (\<lambda>e sel. [])\<rparr>"

definition shrinkingWorld :: world where
  "shrinkingWorld =
     \<lparr>dom = emptyPage,
      state = \<lparr>searchResults = [3, 6], selectedIndex = Num 4\<rparr>,
      lastGKeyPress = 0,
      effects = []\<rparr>"

text \<open>
  A results container that is not attached to a document: element 1 is the container, a
  \<open>DIV\<close> without parent element, and element 2 a heading inside it; nothing carries a
  language attribute.
\<close>

definition detachedPage :: document where
  "detachedPage =
     \<lparr>elements = [],
      activeElement = None,
      tagName = (\<lambda>e. if e = 1 then ''DIV'' else ''H3''),
      getAttribute = (\<lambda>e a. None),
      parentElement = map_of [(2, 1)],
      classList = (\<lambda>e. []),
      querySelectorAll = (\<lambda>e sel. if e = 1 \<and> sel = ''h3'' then [2] else []),
      querySelector = (\<lambda>e sel. None),
      href = (\<lambda>e. []),
      getBoundingClientRect = (\<lambda>e. \<lparr>rect_top = 0, rect_bottom = 0\<rparr>),
      innerHeight = 800\<rparr>"

text \<open>
  The example page with a language attribute on its \<open>HTML\<close> root as well, as search
  result pages have it.
\<close>

definition langRootPage :: document where
  "langRootPage =
     samplePage\<lparr>getAttribute :=
       (\<lambda>e a. if a = ''lang'' \<and> (e = 0 \<or> e = 3 \<or> e = 6 \<or> e = 8 \<or> e = 12)
              then Some ''en'' else None)\<rparr>"

text \<open>
  A run in which the results container leaves the document. The script starts in front
  of the example page, no element marked yet; the first refresh finds the three results
  and marks the first; then the page takes the container, with everything in it, out of
  the document (the script keeps its references, and no refresh follows, since only the
  container's subtree is observed); then \<open>j\<close> is pressed.
\<close>

definition unmarkedPage :: document where
  "unmarkedPage = samplePage\<lparr>classList := (\<lambda>e. [])\<rparr>"

definition startWorld :: world where
  "startWorld =
     \<lparr>dom = unmarkedPage,
      state = \<lparr>searchResults = [], selectedIndex = Num 0\<rparr>,
      lastGKeyPress = 0,
      effects = []\<rparr>"

definition firstMarkedWorld :: world where
  "firstMarkedWorld = highlightSelected (refreshed startWorld [3, 6, 12] [parentNullError])"

definition containerGoneWorld :: world where
  "containerGoneWorld =
     firstMarkedWorld\<lparr>dom := (dom firstMarkedWorld)\<lparr>elements := [0, 1, 11]\<rparr>\<rparr>"

section \<open>Frame lemmas\<close>

lemma emit_simps [simp]:
  "state (emit e w) = state w" "dom (emit e w) = dom w"
  "lastGKeyPress (emit e w) = lastGKeyPress w" "effects (emit e w) = effects w @ [e]"
  by (simp_all add: emit_def)

lemma set_selectedIndex_simps [simp]:
  "selectedIndex (state (set_selectedIndex n w)) = n"
  "searchResults (state (set_selectedIndex n w)) = searchResults (state w)"
  "dom (set_selectedIndex n w) = dom w"
  "lastGKeyPress (set_selectedIndex n w) = lastGKeyPress w"
  "effects (set_selectedIndex n w) = effects w"
  by (simp_all add: set_selectedIndex_def)

lemma results_length_simps [simp]:
  "results_length (emit e w) = results_length w"
  "results_length (set_selectedIndex n w) = results_length w"
  by (simp_all add: results_length_def)

lemma classList_remove_simps [simp]:
  "elements (classList_remove c d e) = elements d"
  "activeElement (classList_remove c d e) = activeElement d"
  "tagName (classList_remove c d e) = tagName d"
  "getAttribute (classList_remove c d e) = getAttribute d"
  "parentElement (classList_remove c d e) = parentElement d"
  "querySelectorAll (classList_remove c d e) = querySelectorAll d"
  "querySelector (classList_remove c d e) = querySelector d"
  "classList (classList_remove c d e) = (classList d)(e := removeAll c (classList d e))"
  by (simp_all add: classList_remove_def)

lemma classList_add_simps [simp]:
  "elements (classList_add c e d) = elements d"
  "activeElement (classList_add c e d) = activeElement d"
  "tagName (classList_add c e d) = tagName d"
  "getAttribute (classList_add c e d) = getAttribute d"
  "parentElement (classList_add c e d) = parentElement d"
  "querySelectorAll (classList_add c e d) = querySelectorAll d"
  "querySelector (classList_add c e d) = querySelector d"
  "classList (classList_add c e d) =
     (classList d)(e := (if c \<in> set (classList d e) then classList d e else classList d e @ [c]))"
  by (simp_all add: classList_add_def)

lemma strip_frame [simp]:
  "elements (foldl (classList_remove c) d es) = elements d"
  "activeElement (foldl (classList_remove c) d es) = activeElement d"
  "tagName (foldl (classList_remove c) d es) = tagName d"
  "getAttribute (foldl (classList_remove c) d es) = getAttribute d"
  "parentElement (foldl (classList_remove c) d es) = parentElement d"
  "querySelectorAll (foldl (classList_remove c) d es) = querySelectorAll d"
  "querySelector (foldl (classList_remove c) d es) = querySelector d"
  by (induction es arbitrary: d; simp)+

lemma strip_classList:
  "classList (foldl (classList_remove c) d es) e =
     (if e \<in> set es then removeAll c (classList d e) else classList d e)"
  by (induction es arbitrary: d) auto

lemma highlightSelected_frame [simp]:
  "state (highlightSelected w) = state w"
  "lastGKeyPress (highlightSelected w) = lastGKeyPress w"
  "activeElement (dom (highlightSelected w)) = activeElement (dom w)"
  "tagName (dom (highlightSelected w)) = tagName (dom w)"
  "elements (dom (highlightSelected w)) = elements (dom w)"
  "getAttribute (dom (highlightSelected w)) = getAttribute (dom w)"
  "parentElement (dom (highlightSelected w)) = parentElement (dom w)"
  "querySelectorAll (dom (highlightSelected w)) = querySelectorAll (dom w)"
  "querySelector (dom (highlightSelected w)) = querySelector (dom w)"
  by (simp_all add: highlightSelected_def Let_def split: option.split)

lemma highlightSelected_p0_frame [simp]:
  "state (highlightSelected_p0 w) = state w"
  "lastGKeyPress (highlightSelected_p0 w) = lastGKeyPress w"
  "activeElement (dom (highlightSelected_p0 w)) = activeElement (dom w)"
  "tagName (dom (highlightSelected_p0 w)) = tagName (dom w)"
  "elements (dom (highlightSelected_p0 w)) = elements (dom w)"
  "getAttribute (dom (highlightSelected_p0 w)) = getAttribute (dom w)"
  "parentElement (dom (highlightSelected_p0 w)) = parentElement (dom w)"
  "querySelectorAll (dom (highlightSelected_p0 w)) = querySelectorAll (dom w)"
  "querySelector (dom (highlightSelected_p0 w)) = querySelector (dom w)"
  by (simp_all add: highlightSelected_p0_def Let_def split: option.split)

lemma inputFocused_frame [simp]:
  "inputFocused (emit e w) = inputFocused w"
  "inputFocused (set_selectedIndex n w) = inputFocused w"
  "inputFocused (highlightSelected w) = inputFocused w"
  "inputFocused (highlightSelected_p0 w) = inputFocused w"
  by (simp_all add: inputFocused_def cong: option.case_cong)

section \<open>Key handling: what each key does to the cursor\<close>

lemma handleKeyDown_results [simp]:
  "searchResults (state (handleKeyDown ev now w)) = searchResults (state w)"
  by (simp add: handleKeyDown_def Let_def split: option.split)

lemma handleKeyDown_p0_results [simp]:
  "searchResults (state (handleKeyDown_p0 ev w)) = searchResults (state w)"
  by (simp add: handleKeyDown_p0_def Let_def split: option.split)

lemma handleKeyDown_focus [simp]:
  "inputFocused (handleKeyDown ev now w) = inputFocused w"
  by (simp add: handleKeyDown_def inputFocused_def Let_def split: option.split)

lemma handleKeyDown_p0_focus [simp]:
  "inputFocused (handleKeyDown_p0 ev w) = inputFocused w"
  by (simp add: handleKeyDown_p0_def inputFocused_def Let_def split: option.split)

lemma handleKeyDown_focused: "inputFocused w \<Longrightarrow> handleKeyDown ev now w = w"
  by (simp add: handleKeyDown_def inputFocused_def Let_def)

lemma handleKeyDown_p0_focused: "inputFocused w \<Longrightarrow> handleKeyDown_p0 ev w = w"
  by (simp add: handleKeyDown_p0_def inputFocused_def Let_def)

lemma next_clamped:
  assumes "\<not> inputFocused w" "isNext ev" "selectedIndex (state w) = Num i"
  shows "selectedIndex (state (handleKeyDown ev now w))
           = Num (max 0 (min (i + 1) (int (length (searchResults (state w))) - 1)))"
  using assms
  by (auto simp add: handleKeyDown_def inputFocused_def isNext_def Let_def clamp_def results_length_def)

lemma prev_clamped:
  assumes "\<not> inputFocused w" "isPrev ev" "selectedIndex (state w) = Num i"
  shows "selectedIndex (state (handleKeyDown ev now w))
           = Num (max 0 (min (i - 1) (int (length (searchResults (state w))) - 1)))"
  using assms
  by (auto simp add: handleKeyDown_def inputFocused_def isPrev_def Let_def clamp_def results_length_def)

lemma js_rem_nonneg: "0 \<le> a \<Longrightarrow> 0 < b \<Longrightarrow> js_rem (Num a) (Num b) = Num (a mod b)"
  by (cases "a = 0") (simp_all add: sgn_if)

lemma next_wrapped:
  assumes "\<not> inputFocused w" "isNext ev" "selectedIndex (state w) = Num i"
    "0 \<le> i" "searchResults (state w) \<noteq> []"
  shows "selectedIndex (state (handleKeyDown_p0 ev w))
           = Num ((i + 1) mod int (length (searchResults (state w))))"
proof -
  have "js_rem (Num (i + 1)) (Num (int (length (searchResults (state w)))))
          = Num ((i + 1) mod int (length (searchResults (state w))))"
    using assms(4,5) by (intro js_rem_nonneg) auto
  with assms(1-3) show ?thesis
    by (auto simp add: handleKeyDown_p0_def inputFocused_def isNext_def Let_def results_length_def)
qed

lemma prev_wrapped:
  assumes "\<not> inputFocused w" "isPrev ev" "selectedIndex (state w) = Num i"
    "0 \<le> i" "searchResults (state w) \<noteq> []"
  shows "selectedIndex (state (handleKeyDown_p0 ev w))
           = Num ((i - 1) mod int (length (searchResults (state w))))"
proof -
  have "js_rem (Num (i - 1 + int (length (searchResults (state w)))))
               (Num (int (length (searchResults (state w)))))
          = Num ((i - 1 + int (length (searchResults (state w))))
                   mod int (length (searchResults (state w))))"
  proof (rule js_rem_nonneg)
    have "0 < int (length (searchResults (state w)))" using assms(5) by simp
    then show "0 \<le> i - 1 + int (length (searchResults (state w)))" using assms(4) by linarith
    show "0 < int (length (searchResults (state w)))" using assms(5) by simp
  qed
  with assms(1-3) show ?thesis
    by (auto simp add: handleKeyDown_p0_def inputFocused_def isPrev_def Let_def results_length_def)
qed

lemma inRange_step:
  assumes "inRange w" "isNext ev \<or> isPrev ev"
  shows "inRange (handleKeyDown ev now w)"
proof (cases "inputFocused w")
  case True
  then show ?thesis using assms by (simp add: handleKeyDown_focused)
next
  case False
  from assms(1) obtain i where i: "selectedIndex (state w) = Num i" "0 \<le> i"
    "i < int (length (searchResults (state w)))"
    by (auto simp add: inRange_def split: jsnum.splits)
  from assms(2) show ?thesis
  proof
    assume "isNext ev"
    from next_clamped[OF False this i(1), of now] i show ?thesis
      by (auto simp add: inRange_def)
  next
    assume "isPrev ev"
    from prev_clamped[OF False this i(1), of now] i show ?thesis
      by (auto simp add: inRange_def)
  qed
qed

lemma inRange_step_p0:
  assumes "inRange w" "isNext ev \<or> isPrev ev"
  shows "inRange (handleKeyDown_p0 ev w)"
proof (cases "inputFocused w")
  case True
  then show ?thesis using assms by (simp add: handleKeyDown_p0_focused)
next
  case False
  from assms(1) obtain i where i: "selectedIndex (state w) = Num i" "0 \<le> i"
    "i < int (length (searchResults (state w)))"
    by (auto simp add: inRange_def split: jsnum.splits)
  then have ne: "searchResults (state w) \<noteq> []" by auto
  from assms(2) show ?thesis
  proof
    assume "isNext ev"
    from next_wrapped[OF False this i(1,2) ne] i ne show ?thesis
      by (simp add: inRange_def)
  next
    assume "isPrev ev"
    from prev_wrapped[OF False this i(1,2) ne] i ne show ?thesis
      by (simp add: inRange_def)
  qed
qed

lemma runKeys_inRange:
  "inRange w \<Longrightarrow> \<forall>x\<in>set evs. isNext (fst x) \<or> isPrev (fst x) \<Longrightarrow>
     inRange (runKeys evs w) \<and> searchResults (state (runKeys evs w)) = searchResults (state w)"
  unfolding runKeys_def
  by (induction evs arbitrary: w) (auto simp add: inRange_step)

lemma runKeys_p0_inRange:
  "inRange w \<Longrightarrow> \<forall>ev\<in>set evs. isNext ev \<or> isPrev ev \<Longrightarrow>
     inRange (runKeys_p0 evs w) \<and> searchResults (state (runKeys_p0 evs w)) = searchResults (state w)"
  unfolding runKeys_p0_def
  by (induction evs arbitrary: w) (auto simp add: inRange_step_p0)


section \<open>The example worlds, field by field\<close>

lemma sampleWorld_fields [simp]:
  "state sampleWorld = \<lparr>searchResults = [3, 6], selectedIndex = Num 0\<rparr>"
  "dom sampleWorld = samplePage"
  "lastGKeyPress sampleWorld = 0"
  "effects sampleWorld = []"
  by (simp_all add: sampleWorld_def)

lemma sample_unfocused [simp]: "\<not> inputFocused sampleWorld"
  by (simp add: inputFocused_def samplePage_def)

lemma pressed_simps [simp]:
  "key (pressed k) = k" "\<not> metaKey (pressed k)" "\<not> ctrlKey (pressed k)" "\<not> shiftKey (pressed k)"
  by (simp_all add: pressed_def)

lemma emptiedWorld_fields [simp]:
  "state emptiedWorld = \<lparr>searchResults = [], selectedIndex = Num 4\<rparr>"
  "dom emptiedWorld = samplePage"
  "lastGKeyPress emptiedWorld = 0"
  "effects emptiedWorld = []"
  by (simp_all add: emptiedWorld_def)

lemma emptied_unfocused [simp]: "\<not> inputFocused emptiedWorld"
  by (simp add: inputFocused_def samplePage_def)

section \<open>The branches of the key handlers\<close>

lemma highlightSelected_empty:
  "searchResults (state w) = [] \<Longrightarrow> highlightSelected w = w"
  by (simp add: highlightSelected_def)

lemma clamp_empty: "clamp (Num v) (Num 0) (Num (- 1)) = Num 0"
  by (simp add: clamp_def)

lemma handleKeyDown_next:
  "\<not> inputFocused w \<Longrightarrow> isNext ev \<Longrightarrow>
     handleKeyDown ev now w =
       highlightSelected
         (set_selectedIndex
            (clamp (js_add (selectedIndex (state w)) (Num 1)) (Num 0)
               (js_sub (results_length w) (Num 1)))
            (emit PreventDefault w))"
  by (simp add: handleKeyDown_def inputFocused_def isNext_def Let_def)

lemma handleKeyDown_prev:
  "\<not> inputFocused w \<Longrightarrow> isPrev ev \<Longrightarrow>
     handleKeyDown ev now w =
       highlightSelected
         (set_selectedIndex
            (clamp (js_sub (selectedIndex (state w)) (Num 1)) (Num 0)
               (js_sub (results_length w) (Num 1)))
            (emit PreventDefault w))"
  unfolding handleKeyDown_def inputFocused_def isPrev_def Let_def
  by (cases "key ev = ''k''") auto

lemma handleKeyDown_activate:
  "\<not> inputFocused w \<Longrightarrow> isActivate ev \<Longrightarrow>
     handleKeyDown ev now w =
       (case js_index (searchResults (state w)) (selectedIndex (state w)) of
          None \<Rightarrow> emit (ConsoleError ''Selected element is undefined'' []) (emit PreventDefault w)
        | Some element \<Rightarrow>
            (case querySelector (dom w) element ''a'' of
               None \<Rightarrow> emit (ConsoleError ''Link not found'' []) (emit PreventDefault w)
             | Some link \<Rightarrow>
                 if metaKey ev
                 then emit (WindowOpen (href (dom w) link) ''_blank'') (emit PreventDefault w)
                 else emit (LocationAssign (href (dom w) link)) (emit PreventDefault w)))"
  unfolding handleKeyDown_def inputFocused_def isActivate_def Let_def
  by (cases "key ev = '' ''") (auto split: option.split)

lemma handleKeyDown_G:
  "\<not> inputFocused w \<Longrightarrow> isG ev \<Longrightarrow>
     handleKeyDown ev now w =
       (if metaKey ev \<or> ctrlKey ev then w
        else if shiftKey ev then
          highlightSelected
            (set_selectedIndex (js_sub (results_length w) (Num 1)) (emit PreventDefault w))
        else if lastGKeyPress w + 1000 > fst now then
          highlightSelected (set_selectedIndex (Num 0) (emit PreventDefault w))
        else (emit PreventDefault w)\<lparr>lastGKeyPress := snd now\<rparr>)"
  unfolding handleKeyDown_def inputFocused_def isG_def Let_def
  by (cases "key ev = ''G''") auto

lemma handleKeyDown_other:
  "\<not> isNext ev \<Longrightarrow> \<not> isPrev ev \<Longrightarrow> \<not> isActivate ev \<Longrightarrow> \<not> isG ev \<Longrightarrow>
     handleKeyDown ev now w = w"
  by (simp add: handleKeyDown_def isNext_def isPrev_def isActivate_def isG_def Let_def)

lemma handleKeyDown_p0_next:
  "\<not> inputFocused w \<Longrightarrow> isNext ev \<Longrightarrow>
     handleKeyDown_p0 ev w =
       highlightSelected_p0
         (set_selectedIndex
            (js_rem (js_add (selectedIndex (state w)) (Num 1)) (results_length w))
            (emit PreventDefault w))"
  by (simp add: handleKeyDown_p0_def inputFocused_def isNext_def Let_def)

lemma handleKeyDown_p0_prev:
  "\<not> inputFocused w \<Longrightarrow> isPrev ev \<Longrightarrow>
     handleKeyDown_p0 ev w =
       highlightSelected_p0
         (set_selectedIndex
            (js_rem (js_add (js_sub (selectedIndex (state w)) (Num 1)) (results_length w))
               (results_length w))
            (emit PreventDefault w))"
  unfolding handleKeyDown_p0_def inputFocused_def isPrev_def Let_def
  by (cases "key ev = ''k''") auto

lemma handleKeyDown_p0_activate:
  "\<not> inputFocused w \<Longrightarrow> isActivate ev \<Longrightarrow>
     handleKeyDown_p0 ev w =
       (case js_index (searchResults (state w)) (selectedIndex (state w)) of
          None \<Rightarrow> emit (ConsoleError ''Selected element is undefined'' []) (emit PreventDefault w)
        | Some element \<Rightarrow>
            (case querySelector (dom w) element ''a'' of
               None \<Rightarrow> emit (ConsoleError ''Link not found'' []) (emit PreventDefault w)
             | Some link \<Rightarrow>
                 if metaKey ev
                 then emit (WindowOpen (href (dom w) link) ''_blank'') (emit PreventDefault w)
                 else emit (LocationAssign (href (dom w) link)) (emit PreventDefault w)))"
  unfolding handleKeyDown_p0_def inputFocused_def isActivate_def Let_def
  by (cases "key ev = '' ''") (auto split: option.split)

lemma handleKeyDown_p0_other:
  "\<not> isNext ev \<Longrightarrow> \<not> isPrev ev \<Longrightarrow> \<not> isActivate ev \<Longrightarrow> handleKeyDown_p0 ev w = w"
  by (simp add: handleKeyDown_p0_def isNext_def isPrev_def isActivate_def Let_def)

text \<open>
  The test for the second \<open>g\<close> is strict: a press exactly 1000 ms after the armed
  timestamp does not jump; it arms again.
\<close>

lemma first_needs_less_than_1000:
  assumes "\<not> inputFocused w" and "isG ev" and "\<not> metaKey ev" and "\<not> ctrlKey ev"
    and "\<not> shiftKey ev" and "fst now = lastGKeyPress w + 1000"
  shows "state (handleKeyDown ev now w) = state w"
    and "lastGKeyPress (handleKeyDown ev now w) = snd now"
  using assms(3-6) by (simp_all add: handleKeyDown_G[OF assms(1,2)])

section \<open>What the highlight does to the page\<close>

lemma single_list: "(length xs = 1 \<and> xs ! 0 = x) = (xs = [x])"
  by (cases xs) auto

lemma highlightSelected_dom:
  assumes "js_index (searchResults (state w)) (selectedIndex (state w)) = Some el"
  shows "dom (highlightSelected w) = moveMarker (dom w) el"
proof -
  have ne: "length (searchResults (state w)) \<noteq> 0"
    using assms by (cases "selectedIndex (state w)") (auto split: if_splits)
  show ?thesis
    unfolding highlightSelected_def Let_def moveMarker_def single_list
    using assms ne by simp
qed

lemma highlightSelected_dom_none:
  assumes "js_index (searchResults (state w)) (selectedIndex (state w)) = None"
  shows "dom (highlightSelected w) = dom w"
  using assms by (simp add: highlightSelected_def)

lemma highlightSelected_p0_dom:
  assumes "js_index (searchResults (state w)) (selectedIndex (state w)) = Some el"
  shows "dom (highlightSelected_p0 w) = moveMarker (dom w) el"
  unfolding highlightSelected_p0_def Let_def moveMarker_def single_list
  using assms by simp

lemma highlightSelected_p0_dom_none:
  assumes "js_index (searchResults (state w)) (selectedIndex (state w)) = None"
  shows "dom (highlightSelected_p0 w) = dom w"
  using assms by (simp add: highlightSelected_p0_def)

section \<open>Keys other than g never read the armed timestamp\<close>

lemma inputFocused_cong: "dom w1 = dom w2 \<Longrightarrow> inputFocused w1 = inputFocused w2"
  by (simp add: inputFocused_def cong: option.case_cong)

lemma highlightSelected_cong:
  assumes "state w1 = state w2" and "dom w1 = dom w2"
  shows "state (highlightSelected w1) = state (highlightSelected w2)
       \<and> dom (highlightSelected w1) = dom (highlightSelected w2)"
proof (cases "js_index (searchResults (state w2)) (selectedIndex (state w2))")
  case None
  then show ?thesis
    using assms highlightSelected_dom_none[of w1] highlightSelected_dom_none[of w2] by simp
next
  case (Some el)
  then show ?thesis
    using assms highlightSelected_dom[of w1 el] highlightSelected_dom[of w2 el] by simp
qed

lemma handleKeyDown_ignores_arm:
  assumes "\<not> isG ev" and s: "state w1 = state w2" and d: "dom w1 = dom w2"
  shows "state (handleKeyDown ev now w1) = state (handleKeyDown ev now w2)
       \<and> dom (handleKeyDown ev now w1) = dom (handleKeyDown ev now w2)"
proof (cases "inputFocused w2")
  case True
  then have "inputFocused w1" using inputFocused_cong[OF d] by simp
  with True s d show ?thesis by (simp add: handleKeyDown_focused)
next
  case False
  then have f1: "\<not> inputFocused w1" using inputFocused_cong[OF d] by simp
  have rl: "results_length w1 = results_length w2" using s by (simp add: results_length_def)
  consider (n) "isNext ev" | (p) "isPrev ev" | (a) "isActivate ev"
    | (o) "\<not> isNext ev" "\<not> isPrev ev" "\<not> isActivate ev"
    by blast
  then show ?thesis
  proof cases
    case n
    show ?thesis
      unfolding handleKeyDown_next[OF f1 n] handleKeyDown_next[OF False n]
      by (rule highlightSelected_cong) (simp_all add: s d rl set_selectedIndex_def)
  next
    case p
    show ?thesis
      unfolding handleKeyDown_prev[OF f1 p] handleKeyDown_prev[OF False p]
      by (rule highlightSelected_cong) (simp_all add: s d rl set_selectedIndex_def)
  next
    case a
    show ?thesis
      unfolding handleKeyDown_activate[OF f1 a] handleKeyDown_activate[OF False a]
      using s d by (simp split: option.split)
  next
    case o
    with assms(1) s d show ?thesis by (simp add: handleKeyDown_other)
  qed
qed

lemma first_after_first:
  assumes f: "\<not> inputFocused w" and g1: "isG ev" "\<not> metaKey ev" "\<not> ctrlKey ev" "\<not> shiftKey ev"
    and g2: "isG ev2" "\<not> metaKey ev2" "\<not> ctrlKey ev2" "\<not> shiftKey ev2"
    and t: "fst now2 < snd now + 1000"
  shows "selectedIndex (state (handleKeyDown ev2 now2 (handleKeyDown ev now w))) = Num 0"
proof -
  have f': "\<not> inputFocused (handleKeyDown ev now w)" using f by simp
  show ?thesis
  proof (cases "lastGKeyPress w + 1000 > fst now")
    case True
    then have "selectedIndex (state (handleKeyDown ev now w)) = Num 0"
      using g1 by (simp add: handleKeyDown_G[OF f g1(1)])
    then show ?thesis
      using g2 by (simp add: handleKeyDown_G[OF f' g2(1)])
  next
    case False
    then have "lastGKeyPress (handleKeyDown ev now w) = snd now"
      using g1 by (simp add: handleKeyDown_G[OF f g1(1)])
    then show ?thesis
      using g2 t by (simp add: handleKeyDown_G[OF f' g2(1)])
  qed
qed

section \<open>Moving the marker\<close>

lemma moveMarker_frame [simp]:
  "elements (moveMarker d el) = elements d"
  "activeElement (moveMarker d el) = activeElement d"
  "tagName (moveMarker d el) = tagName d"
  "getAttribute (moveMarker d el) = getAttribute d"
  "parentElement (moveMarker d el) = parentElement d"
  "querySelectorAll (moveMarker d el) = querySelectorAll d"
  "querySelector (moveMarker d el) = querySelector d"
  by (simp_all add: moveMarker_def)

lemma marked_highlighted:
  "e \<in> set (highlightedElements d) \<longleftrightarrow> e \<in> set (elements d) \<and> marked d e"
  by (auto simp add: highlightedElements_def marked_def)

lemma marked_stripped:
  "marked (foldl (classList_remove highlightClass) d es) e \<longleftrightarrow> marked d e \<and> e \<notin> set es"
  by (simp add: marked_def strip_classList)

lemma marked_added:
  "marked (classList_add highlightClass el d) e \<longleftrightarrow> e = el \<or> marked d e"
  by (simp add: marked_def)

lemma moveMarker_target: "marked (moveMarker d el) el"
proof (cases "highlightedElements d = [el]")
  case True
  then have "el \<in> set (highlightedElements d)" by simp
  then have "marked d el" by (simp only: marked_highlighted)
  then show ?thesis using True by (simp add: moveMarker_def)
next
  case False
  then show ?thesis by (simp add: moveMarker_def marked_added)
qed

lemma moveMarker_others:
  assumes "e \<in> set (elements d)" and "marked (moveMarker d el) e"
  shows "e = el"
proof (cases "highlightedElements d = [el]")
  case True
  with assms(2) have "marked d e" by (simp add: moveMarker_def)
  with assms(1) have "e \<in> set (highlightedElements d)" by (simp only: marked_highlighted)
  with True show ?thesis by simp
next
  case False
  with assms(2) have "e = el \<or> (marked d e \<and> e \<notin> set (highlightedElements d))"
    by (simp add: moveMarker_def marked_added marked_stripped)
  with assms(1) show ?thesis by (auto simp add: marked_highlighted)
qed

lemma moveMarker_classList:
  assumes "highlightedElements d \<noteq> [el]" and "e \<noteq> el"
  shows "classList (moveMarker d el) e =
           (if e \<in> set (highlightedElements d) then removeAll highlightClass (classList d e)
            else classList d e)"
  using assms by (simp add: moveMarker_def strip_classList)

lemma moveMarker_outside:
  assumes "e \<noteq> el" and "e \<notin> set (elements d)"
  shows "classList (moveMarker d el) e = classList d e"
proof (cases "highlightedElements d = [el]")
  case True
  then show ?thesis by (simp add: moveMarker_def)
next
  case False
  have "e \<notin> set (highlightedElements d)"
    using assms(2) by (simp only: marked_highlighted) simp
  with moveMarker_classList[OF False assms(1)] show ?thesis by simp
qed

section \<open>The walk up the ancestors meets its specification\<close>

lemma treeLikeI:
  assumes "\<And>e p. parentElement d e = Some p \<Longrightarrow> f p < (f e :: nat)"
  shows "treeLike d"
  unfolding treeLike_def
proof (rule wf_subset[OF wf_measure[of f]])
  show "(parentRel d)\<inverse> \<subseteq> measure f"
    using assms by (auto simp add: parentRel_def)
qed

lemma treeLike_no_cycle:
  assumes "treeLike d"
  shows "(e, e) \<notin> (parentRel d)\<^sup>+"
proof
  assume "(e, e) \<in> (parentRel d)\<^sup>+"
  then have "(e, e) \<in> ((parentRel d)\<inverse>)\<^sup>+" by (simp add: trancl_converse)
  moreover have "acyclic ((parentRel d)\<inverse>)"
    using assms unfolding treeLike_def by (rule wf_acyclic)
  ultimately show False by (simp add: acyclic_def)
qed

lemma chain_step:
  assumes "parentElement d h = Some p" and "(h, x) \<in> (parentRel d)\<^sup>*"
  shows "x = h \<or> (p, x) \<in> (parentRel d)\<^sup>*"
  using assms(2)
proof (cases rule: converse_rtranclE)
  case base
  then show ?thesis by simp
next
  case (step y)
  then have "y = p" using assms(1) by (simp add: parentRel_def)
  with step show ?thesis by simp
qed

lemma chain_top:
  assumes "parentElement d h = None" and "(h, x) \<in> (parentRel d)\<^sup>*"
  shows "x = h"
  using assms(2)
proof (cases rule: converse_rtranclE)
  case base
  then show ?thesis by simp
next
  case (step y)
  then show ?thesis using assms(1) by (simp add: parentRel_def)
qed

lemma resolves_self:
  assumes "treeLike d" and "hasLang d h"
  shows "nearestLangAncestor d h h"
  unfolding nearestLangAncestor_def
proof (intro conjI allI impI)
  show "(h, h) \<in> (parentRel d)\<^sup>*" by simp
  show "hasLang d h" by (rule assms(2))
next
  fix x assume "(h, x) \<in> (parentRel d)\<^sup>* \<and> (x, h) \<in> (parentRel d)\<^sup>+"
  then have "(h, h) \<in> (parentRel d)\<^sup>+" by (meson rtrancl_trancl_trancl)
  then show "\<not> hasLang d x" using treeLike_no_cycle[OF assms(1)] by simp
qed

lemma resolves_top:
  assumes "\<not> hasLang d h" and "parentElement d h = None"
  shows "topmostWithoutLang d h h"
  unfolding topmostWithoutLang_def
  using assms chain_top[OF assms(2)] by auto

lemma resolves_up:
  assumes "\<not> hasLang d h" and p: "parentElement d h = Some p" and "resolvesTo d p r"
  shows "resolvesTo d h r"
proof -
  have hp: "(h, p) \<in> parentRel d" using p by (simp add: parentRel_def)
  from assms(3) show ?thesis unfolding resolvesTo_def
  proof
    assume n: "nearestLangAncestor d p r"
    have "nearestLangAncestor d h r"
      unfolding nearestLangAncestor_def
    proof (intro conjI allI impI)
      show "(h, r) \<in> (parentRel d)\<^sup>*"
        using hp n by (auto simp add: nearestLangAncestor_def intro: converse_rtrancl_into_rtrancl)
      show "hasLang d r" using n by (simp add: nearestLangAncestor_def)
    next
      fix x assume x: "(h, x) \<in> (parentRel d)\<^sup>* \<and> (x, r) \<in> (parentRel d)\<^sup>+"
      from chain_step[OF p] x have "x = h \<or> (p, x) \<in> (parentRel d)\<^sup>*" by blast
      then show "\<not> hasLang d x"
        using assms(1) n x by (auto simp add: nearestLangAncestor_def)
    qed
    then show "nearestLangAncestor d h r \<or> topmostWithoutLang d h r" by simp
  next
    assume t: "topmostWithoutLang d p r"
    have "topmostWithoutLang d h r"
      unfolding topmostWithoutLang_def
    proof (intro conjI allI impI)
      show "(h, r) \<in> (parentRel d)\<^sup>*"
        using hp t by (auto simp add: topmostWithoutLang_def intro: converse_rtrancl_into_rtrancl)
      show "parentElement d r = None" using t by (simp add: topmostWithoutLang_def)
    next
      fix x assume "(h, x) \<in> (parentRel d)\<^sup>*"
      from chain_step[OF p this] show "\<not> hasLang d x"
        using assms(1) t by (auto simp add: topmostWithoutLang_def)
    qed
    then show "nearestLangAncestor d h r \<or> topmostWithoutLang d h r" by simp
  qed
qed

lemma topmost_no_lang: "topmostWithoutLang d h t \<Longrightarrow> \<not> hasLang d t"
  by (auto simp add: topmostWithoutLang_def)

lemma nearest_has_lang: "nearestLangAncestor d h r \<Longrightarrow> hasLang d r"
  by (simp add: nearestLangAncestor_def)

text \<open>The walk ends on every page that is a tree, and ends where the specification says.\<close>

lemma walkUp_spec:
  assumes "treeLike d"
  shows "\<exists>r. resolvesTo d h r
           \<and> walkUp d h fx = Some (r, if hasLang d r then fx else fx @ [parentNullError])"
  using assms[unfolded treeLike_def]
proof (induction h rule: wf_induct_rule)
  case (less h)
  show ?case
  proof (cases "hasLang d h")
    case True
    then have "walkUp d h fx = Some (h, fx)"
      by (subst walkUp.simps) (auto simp add: hasLang_def)
    with True resolves_self[OF assms True] show ?thesis
      by (auto simp add: resolvesTo_def)
  next
    case False
    show ?thesis
    proof (cases "parentElement d h")
      case None
      then have "walkUp d h fx = Some (h, fx @ [parentNullError])"
        using False by (subst walkUp.simps) (simp add: hasLang_def parentNullError_def)
      with False resolves_top[OF False None] show ?thesis
        by (auto simp add: resolvesTo_def)
    next
      case (Some p)
      then have "(p, h) \<in> (parentRel d)\<inverse>" by (simp add: parentRel_def)
      from less.IH[OF this] obtain r where r: "resolvesTo d p r"
        "walkUp d p fx = Some (r, if hasLang d r then fx else fx @ [parentNullError])"
        by blast
      have "walkUp d h fx = walkUp d p fx"
        using False Some by (subst walkUp.simps) (simp add: hasLang_def)
      with r resolves_up[OF False Some r(1)] show ?thesis by auto
    qed
  qed
qed
lemma parentRel_single_valued: "single_valued (parentRel d)"
  by (auto simp add: single_valued_def parentRel_def)

text \<open>The specification names one element for every heading.\<close>

lemma resolvesTo_unique:
  assumes tl: "treeLike d" and a: "resolvesTo d h r" and b: "resolvesTo d h r'"
  shows "r = r'"
proof -
  have on_chain: "(h, r) \<in> (parentRel d)\<^sup>*" "(h, r') \<in> (parentRel d)\<^sup>*"
    using a b by (auto simp add: resolvesTo_def nearestLangAncestor_def topmostWithoutLang_def)
  then have lin: "(r, r') \<in> (parentRel d)\<^sup>* \<or> (r', r) \<in> (parentRel d)\<^sup>*"
    using single_valued_confluent[OF parentRel_single_valued] by blast
  consider (nn) "nearestLangAncestor d h r" "nearestLangAncestor d h r'"
    | (nt) "nearestLangAncestor d h r" "topmostWithoutLang d h r'"
    | (tn) "topmostWithoutLang d h r" "nearestLangAncestor d h r'"
    | (tt) "topmostWithoutLang d h r" "topmostWithoutLang d h r'"
    using a b by (auto simp add: resolvesTo_def)
  then show ?thesis
  proof cases
    case nn
    show ?thesis
    proof (rule ccontr)
      assume ne: "r \<noteq> r'"
      from lin show False
      proof
        assume "(r, r') \<in> (parentRel d)\<^sup>*"
        with ne have "(r, r') \<in> (parentRel d)\<^sup>+" by (auto simp add: rtrancl_eq_or_trancl)
        with nn on_chain show False by (auto simp add: nearestLangAncestor_def)
      next
        assume "(r', r) \<in> (parentRel d)\<^sup>*"
        with ne have "(r', r) \<in> (parentRel d)\<^sup>+" by (auto simp add: rtrancl_eq_or_trancl)
        with nn on_chain show False by (auto simp add: nearestLangAncestor_def)
      qed
    qed
  next
    case nt
    with on_chain show ?thesis by (auto simp add: nearestLangAncestor_def topmostWithoutLang_def)
  next
    case tn
    with on_chain show ?thesis by (auto simp add: nearestLangAncestor_def topmostWithoutLang_def)
  next
    case tt
    then have top: "parentElement d r = None" "parentElement d r' = None"
      by (simp_all add: topmostWithoutLang_def)
    from lin show ?thesis
    proof
      assume "(r, r') \<in> (parentRel d)\<^sup>*"
      from chain_top[OF top(1) this] show ?thesis by simp
    next
      assume "(r', r) \<in> (parentRel d)\<^sup>*"
      from chain_top[OF top(2) this] show ?thesis by simp
    qed
  qed
qed

lemma extractLoop_spec:
  assumes "treeLike d"
  shows "\<exists>picked. list_all2 (resolvesTo d) hs picked
           \<and> extractLoop d hs acc fx =
               Some (acc @ filter (\<lambda>r. tagName d r = ''DIV'') picked,
                     fx @ map (\<lambda>r. parentNullError) (filter (\<lambda>r. \<not> hasLang d r) picked))"
proof (induction hs arbitrary: acc fx)
  case Nil
  show ?case by simp
next
  case (Cons h hs)
  from walkUp_spec[OF assms, of h fx] obtain r where r: "resolvesTo d h r"
    "walkUp d h fx = Some (r, if hasLang d r then fx else fx @ [parentNullError])"
    by blast
  let ?fx = "if hasLang d r then fx else fx @ [parentNullError]"
  let ?acc = "if tagName d r \<noteq> ''DIV'' then acc else acc @ [r]"
  from Cons.IH[of ?acc ?fx] obtain picked where p: "list_all2 (resolvesTo d) hs picked"
    "extractLoop d hs ?acc ?fx =
       Some (?acc @ filter (\<lambda>r. tagName d r = ''DIV'') picked,
             ?fx @ map (\<lambda>r. parentNullError) (filter (\<lambda>r. \<not> hasLang d r) picked))"
    by blast
  have "extractLoop d (h # hs) acc fx = extractLoop d hs ?acc ?fx"
    using r(2) by simp
  with p(2) have "extractLoop d (h # hs) acc fx =
       Some (acc @ filter (\<lambda>r. tagName d r = ''DIV'') (r # picked),
             fx @ map (\<lambda>r. parentNullError) (filter (\<lambda>r. \<not> hasLang d r) (r # picked)))"
    by simp
  moreover have "list_all2 (resolvesTo d) (h # hs) (r # picked)"
    using r(1) p(1) by simp
  ultimately show ?case by blast
qed

lemma extractSearchResults_total:
  assumes "treeLike d"
  shows "\<exists>rs fx'. extractSearchResults d se fx = Some (rs, fx')"
  using extractLoop_spec[OF assms, of "querySelectorAll d se ''h3''" "[]" fx]
  by (auto simp add: extractSearchResults_def)

section \<open>The extractor on the example pages\<close>

lemma samplePage_fields:
  "elements samplePage = [0, 1, 2, 3, 4, 5, 6, 7, 8, 9, 10, 12, 13, 11]"
  "activeElement samplePage = Some 1"
  "tagName samplePage = (\<lambda>e. if e = 0 then ''HTML'' else if e = 1 then ''BODY''
                     else if e = 2 \<or> e = 3 \<or> e = 6 \<or> e = 12 then ''DIV''
                     else if e = 4 \<or> e = 7 \<or> e = 9 \<or> e = 10 \<or> e = 13 then ''H3''
                     else if e = 5 then ''A'' else if e = 8 then ''SPAN'' else ''INPUT'')"
  "getAttribute samplePage = (\<lambda>e a. if a = ''lang'' \<and> (e = 3 \<or> e = 6 \<or> e = 8 \<or> e = 12)
                            then Some ''en'' else None)"
  "parentElement samplePage = map_of [(1, 0), (2, 1), (3, 2), (4, 3), (5, 3), (6, 2), (7, 6), (8, 2),
                              (9, 8), (10, 2), (11, 1), (12, 2), (13, 12)]"
  "classList samplePage = (\<lambda>e. if e = 3 then [''g'', ''gscss-highlight''] else [])"
  "querySelectorAll samplePage = (\<lambda>e sel. if e = 2 \<and> sel = ''h3'' then [4, 7, 9, 10, 13] else [])"
  "querySelector samplePage = (\<lambda>e sel. if e = 3 \<and> sel = ''a'' then Some 5 else None)"
  by (simp_all add: samplePage_def)

lemma samplePage_treeLike: "treeLike samplePage"
proof (rule treeLikeI[of _ id])
  fix e p assume "parentElement samplePage e = Some p"
  then show "id p < id e"
    by (simp add: samplePage_fields split: if_splits)
qed

lemma sample_walks:
  "walkUp samplePage 4 fx = Some (3, fx)"
  "walkUp samplePage 7 fx = Some (6, fx)"
  "walkUp samplePage 9 fx = Some (8, fx)"
  "walkUp samplePage 10 fx = Some (0, fx @ [parentNullError])"
  "walkUp samplePage 13 fx = Some (12, fx)"
  by (simp_all add: walkUp.simps samplePage_fields parentNullError_def)

lemma sample_extraction:
  "extractSearchResults samplePage 2 fx = Some ([3, 6, 12], fx @ [parentNullError])"
  by (simp add: extractSearchResults_def sample_walks samplePage_fields(3,7))

lemma detachedPage_treeLike: "treeLike detachedPage"
proof (rule treeLikeI[of _ id])
  fix e p assume "parentElement detachedPage e = Some p"
  then show "id p < id e"
    by (simp add: detachedPage_def split: if_splits)
qed

section \<open>The refresh\<close>

lemma refreshed_simps [simp]:
  "dom (refreshed w rs fx) = dom w"
  "searchResults (state (refreshed w rs fx)) = rs"
  "selectedIndex (state (refreshed w rs fx)) = selectedIndex (state w)"
  "lastGKeyPress (refreshed w rs fx) = lastGKeyPress w"
  "effects (refreshed w rs fx) = fx"
  "results_length (refreshed w rs fx) = Num (int (length rs))"
  by (simp_all add: refreshed_def results_length_def)

lemma refreshed_focus [simp]: "inputFocused (refreshed w rs fx) = inputFocused w"
  by (rule inputFocused_cong) simp

lemma handleSearchResultsChanged_eq:
  assumes "extractSearchResults (dom w) se (effects w) = Some (rs, fx)"
  shows "handleSearchResultsChanged se w =
           Some (if js_le (results_length w) (selectedIndex (state w))
                 then highlightSelected (refreshed w rs fx) else refreshed w rs fx)"
  using assms by (simp add: handleSearchResultsChanged_def refreshed_def Let_def)

lemma handleSearchResultsChanged_p0_eq:
  assumes "extractSearchResults (dom w) se (effects w) = Some (rs, fx)"
  shows "handleSearchResultsChanged_p0 se w = Some (highlightSelected_p0 (refreshed w rs fx))"
  using assms by (simp add: handleSearchResultsChanged_p0_def refreshed_def)

lemma refresh_keeps_cursor:
  "handleSearchResultsChanged se w = Some w' \<Longrightarrow> selectedIndex (state w') = selectedIndex (state w)"
  by (auto simp add: handleSearchResultsChanged_def Let_def split: option.splits if_splits)

lemma refresh_p0_keeps_cursor:
  "handleSearchResultsChanged_p0 se w = Some w' \<Longrightarrow> selectedIndex (state w') = selectedIndex (state w)"
  by (auto simp add: handleSearchResultsChanged_p0_def split: option.splits)

lemma handleKeyDown_cursor_number:
  assumes "selectedIndex (state w) = Num i" and "- 1 \<le> i"
  shows "\<exists>j. selectedIndex (state (handleKeyDown ev now w)) = Num j \<and> - 1 \<le> j"
proof (cases "inputFocused w")
  case True
  with assms show ?thesis by (simp add: handleKeyDown_focused)
next
  case False
  consider (n) "isNext ev" | (p) "isPrev ev" | (a) "isActivate ev" | (g) "isG ev"
    | (o) "\<not> isNext ev" "\<not> isPrev ev" "\<not> isActivate ev" "\<not> isG ev"
    by blast
  then show ?thesis
  proof cases
    case n
    then show ?thesis using assms
      by (simp add: handleKeyDown_next[OF False] clamp_def results_length_def)
  next
    case p
    then show ?thesis using assms
      by (simp add: handleKeyDown_prev[OF False] clamp_def results_length_def)
  next
    case a
    then show ?thesis using assms
      by (simp add: handleKeyDown_activate[OF False] split: option.split)
  next
    case g
    then show ?thesis using assms
      by (simp add: handleKeyDown_G[OF False] results_length_def)
  next
    case o
    then show ?thesis using assms by (simp add: handleKeyDown_other)
  qed
qed

text \<open>The cursor of \<^verbatim>\<open>content.js\<close> is always an integer, and at least \<open>-1\<close>.\<close>

lemma reachable_cursor_number:
  "reachable w \<Longrightarrow> \<exists>i. selectedIndex (state w) = Num i \<and> - 1 \<le> i"
proof (induction rule: reachable.induct)
  case (start d)
  show ?case by simp
next
  case (keydown w ev now)
  then show ?case using handleKeyDown_cursor_number by blast
next
  case (refresh w se w')
  then show ?case using refresh_keeps_cursor by fastforce
next
  case (page w d)
  then show ?case by simp
qed

section \<open>A cursor that is no index\<close>

lemma highlightSelected_undefined:
  assumes "js_index (searchResults (state w)) (selectedIndex (state w)) = None"
  shows "highlightSelected w =
           (if searchResults (state w) = [] then w
            else emit (ConsoleError ''Selected element is undefined''
                         [results_length w, selectedIndex (state w)]) w)"
  using assms by (simp add: highlightSelected_def)

lemma highlightSelected_p0_undefined:
  assumes "js_index (searchResults (state w)) (selectedIndex (state w)) = None"
  shows "highlightSelected_p0 w = emit undefinedError w"
  using assms by (simp add: highlightSelected_p0_def undefinedError_def)

lemma activate_undefined:
  assumes "js_index (searchResults (state w)) (selectedIndex (state w)) = None"
    and "\<not> inputFocused w" and "isActivate ev"
  shows "handleKeyDown ev now w = emit undefinedError (emit PreventDefault w)"
    and "handleKeyDown_p0 ev w = emit undefinedError (emit PreventDefault w)"
  using assms(1)
  by (simp_all add: handleKeyDown_activate[OF assms(2,3)] handleKeyDown_p0_activate[OF assms(2,3)]
        undefinedError_def)

section \<open>The refresh on the example worlds\<close>

lemma shrinkingWorld_facts:
  "treeLike (dom shrinkingWorld)"
  "extractSearchResults (dom shrinkingWorld) 2 (effects shrinkingWorld) = Some ([], [])"
  "selectedIndex (state shrinkingWorld) = Num 4"
  "results_length shrinkingWorld = Num 2"
  "\<not> inputFocused shrinkingWorld"
proof -
  show "treeLike (dom shrinkingWorld)"
    using samplePage_treeLike
    by (simp add: shrinkingWorld_def emptyPage_def treeLike_def parentRel_def)
  show "extractSearchResults (dom shrinkingWorld) 2 (effects shrinkingWorld) = Some ([], [])"
    by (simp add: shrinkingWorld_def emptyPage_def extractSearchResults_def)
  show "selectedIndex (state shrinkingWorld) = Num 4" by (simp add: shrinkingWorld_def)
  show "results_length shrinkingWorld = Num 2"
    by (simp add: shrinkingWorld_def results_length_def)
  show "\<not> inputFocused shrinkingWorld"
    by (simp add: shrinkingWorld_def emptyPage_def inputFocused_def samplePage_def)
qed

lemma oneResultWorld_facts:
  "treeLike (dom oneResultWorld)"
  "extractSearchResults (dom oneResultWorld) 2 (effects oneResultWorld)
     = Some ([3, 6, 12], [parentNullError])"
  "selectedIndex (state oneResultWorld) = Num 0"
  "searchResults (state oneResultWorld) = [3]"
  "results_length oneResultWorld = Num 1"
  using samplePage_treeLike sample_extraction[of "[]"]
  by (simp_all add: oneResultWorld_def results_length_def)

lemma emptiedWorld_facts:
  "treeLike (dom emptiedWorld)"
  "extractSearchResults (dom emptiedWorld) 2 (effects emptiedWorld)
     = Some ([3, 6, 12], [parentNullError])"
  "results_length emptiedWorld = Num 0"
  using samplePage_treeLike sample_extraction[of "[]"]
  by (simp_all add: results_length_def)

section \<open>The run in which the container leaves the document\<close>

lemma startWorld_refresh: "handleSearchResultsChanged 2 startWorld = Some firstMarkedWorld"
proof -
  have "extractSearchResults (dom startWorld) 2 (effects startWorld)
          = Some ([3, 6, 12], [parentNullError])"
    by (simp add: startWorld_def unmarkedPage_def samplePage_def extractSearchResults_def
          walkUp.simps parentNullError_def)
  from handleSearchResultsChanged_eq[OF this] show ?thesis
    by (simp add: firstMarkedWorld_def startWorld_def results_length_def)
qed

lemma containerGoneWorld_reachable: "reachable containerGoneWorld"
proof -
  have "reachable startWorld" unfolding startWorld_def by (rule reachable.start)
  then have "reachable firstMarkedWorld" using startWorld_refresh by (rule reachable.refresh)
  then show ?thesis unfolding containerGoneWorld_def by (rule reachable.page)
qed

lemma firstMarkedWorld_dom:
  "dom firstMarkedWorld = classList_add highlightClass 3 unmarkedPage"
proof -
  have "dom firstMarkedWorld = moveMarker (dom startWorld) 3"
    unfolding firstMarkedWorld_def by (subst highlightSelected_dom[of _ 3]) (simp_all add: startWorld_def)
  moreover have "highlightedElements unmarkedPage = []"
    by (simp add: highlightedElements_def unmarkedPage_def)
  ultimately show ?thesis by (simp add: moveMarker_def startWorld_def)
qed

lemma containerGoneWorld_fields:
  "searchResults (state containerGoneWorld) = [3, 6, 12]"
  "selectedIndex (state containerGoneWorld) = Num 0"
  "elements (dom containerGoneWorld) = [0, 1, 11]"
  "classList (dom containerGoneWorld) = (\<lambda>e. if e = 3 then [highlightClass] else [])"
  "\<not> inputFocused containerGoneWorld"
proof -
  show "searchResults (state containerGoneWorld) = [3, 6, 12]"
    "selectedIndex (state containerGoneWorld) = Num 0"
    by (simp_all add: containerGoneWorld_def firstMarkedWorld_def startWorld_def)
  show "elements (dom containerGoneWorld) = [0, 1, 11]"
    by (simp add: containerGoneWorld_def)
  show "classList (dom containerGoneWorld) = (\<lambda>e. if e = 3 then [highlightClass] else [])"
    by (simp add: containerGoneWorld_def firstMarkedWorld_dom unmarkedPage_def fun_eq_iff)
  show "\<not> inputFocused containerGoneWorld"
    by (simp add: inputFocused_def containerGoneWorld_def firstMarkedWorld_dom unmarkedPage_def
          samplePage_def)
qed

section \<open>The claims\<close>

text \<open>
  C2. With five result entries and the cursor on the last one (\<open>selectedIndex = 4\<close>), one
  \<open>next\<close> key (\<open>j\<close> or \<open>ArrowDown\<close>) leaves the cursor at 4 in \<^verbatim>\<open>content.js\<close> and moves it
  to 0 in \<^verbatim>\<open>part_000\<close>, so the two \<open>next\<close> operations differ at the upper boundary. The
  entries, the page, the event's modifiers and the clock are arbitrary; the focus is
  outside any input.
\<close>

theorem next_at_last_of_five:
  "selectedIndex (state (handleKeyDown \<lparr>key = ''j'', metaKey = m, ctrlKey = ct, shiftKey = s\<rparr> now
       (fiveAtLast w a b c d e))) = Num 4
   \<and> selectedIndex (state (handleKeyDown \<lparr>key = ''ArrowDown'', metaKey = m, ctrlKey = ct, shiftKey = s\<rparr> now
       (fiveAtLast w a b c d e))) = Num 4
   \<and> selectedIndex (state (handleKeyDown_p0 \<lparr>key = ''j'', metaKey = m, ctrlKey = ct, shiftKey = s\<rparr>
       (fiveAtLast w a b c d e))) = Num 0
   \<and> selectedIndex (state (handleKeyDown_p0 \<lparr>key = ''ArrowDown'', metaKey = m, ctrlKey = ct, shiftKey = s\<rparr>
       (fiveAtLast w a b c d e))) = Num 0
   \<and> selectedIndex (state (handleKeyDown \<lparr>key = ''j'', metaKey = m, ctrlKey = ct, shiftKey = s\<rparr> now
       (fiveAtLast w a b c d e)))
     \<noteq> selectedIndex (state (handleKeyDown_p0 \<lparr>key = ''j'', metaKey = m, ctrlKey = ct, shiftKey = s\<rparr>
       (fiveAtLast w a b c d e)))"
  by (simp add: fiveAtLast_def handleKeyDown_def handleKeyDown_p0_def clamp_def results_length_def)

text \<open>
  C1. Starting from a cursor that is an index of a non-empty result list, every sequence of
  \<open>next\<close>/\<open>prev\<close> keys (\<open>j\<close>/\<open>ArrowDown\<close>, \<open>k\<close>/\<open>ArrowUp\<close>) leaves the cursor an index of the
  same list, in both revisions. Outside an input, one step of \<^verbatim>\<open>content.js\<close> saturates
  (\<open>next\<close> gives \<open>min (i + 1) (length - 1)\<close>, \<open>prev\<close> gives \<open>max (i - 1) 0\<close>) and one step of
  \<^verbatim>\<open>part_000\<close> wraps (\<open>(i + 1) mod length\<close>, \<open>(i - 1) mod length\<close>); with the focus in an
  input the handlers change nothing.
\<close>

theorem cursor_stays_in_range:
  assumes "selectedIndex (state w) = Num i" and "0 \<le> i"
    and "i < int (length (searchResults (state w)))"
    and "\<forall>x\<in>set evs. isNext (fst x) \<or> isPrev (fst x)"
    and "\<forall>x\<in>set evs0. isNext x \<or> isPrev x"
  shows "inRange (runKeys evs w)
       \<and> searchResults (state (runKeys evs w)) = searchResults (state w)
       \<and> inRange (runKeys_p0 evs0 w)
       \<and> searchResults (state (runKeys_p0 evs0 w)) = searchResults (state w)
       \<and> (\<not> inputFocused w \<and> isNext ev \<longrightarrow>
            selectedIndex (state (handleKeyDown ev now w))
              = Num (min (i + 1) (int (length (searchResults (state w))) - 1))
          \<and> selectedIndex (state (handleKeyDown_p0 ev w))
              = Num ((i + 1) mod int (length (searchResults (state w)))))
       \<and> (\<not> inputFocused w \<and> isPrev ev \<longrightarrow>
            selectedIndex (state (handleKeyDown ev now w)) = Num (max (i - 1) 0)
          \<and> selectedIndex (state (handleKeyDown_p0 ev w))
              = Num ((i - 1) mod int (length (searchResults (state w)))))"
proof -
  have r: "inRange w" using assms(1-3) by (simp add: inRange_def)
  have ne: "searchResults (state w) \<noteq> []" using assms(2,3) by auto
  have a: "max 0 (min (i + 1) (int (length (searchResults (state w))) - 1))
             = min (i + 1) (int (length (searchResults (state w))) - 1)"
    using assms(2,3) by simp
  have b: "max 0 (min (i - 1) (int (length (searchResults (state w))) - 1)) = max (i - 1) 0"
    using assms(2,3) by simp
  show ?thesis
    using runKeys_inRange[OF r assms(4)] runKeys_p0_inRange[OF r assms(5)]
      next_clamped[OF _ _ assms(1), of ev now] prev_clamped[OF _ _ assms(1), of ev now]
      next_wrapped[OF _ _ assms(1,2) ne, of ev] prev_wrapped[OF _ _ assms(1,2) ne, of ev]
    by (simp add: a b)
qed

theorem cursor_stays_in_range_witness:
  "selectedIndex (state sampleWorld) = Num 0
   \<and> length (searchResults (state sampleWorld)) = 2
   \<and> inRange (runKeys [(pressed ''j'', 5, 5), (pressed ''ArrowDown'', 6, 6), (pressed ''k'', 7, 7)] sampleWorld)
   \<and> selectedIndex (state (runKeys [(pressed ''j'', 5, 5), (pressed ''ArrowDown'', 6, 6), (pressed ''k'', 7, 7)] sampleWorld)) = Num 0
   \<and> inRange (runKeys_p0 [pressed ''j'', pressed ''j'', pressed ''ArrowUp''] sampleWorld)
   \<and> selectedIndex (state (runKeys_p0 [pressed ''j'', pressed ''j'', pressed ''ArrowUp''] sampleWorld)) = Num 1
   \<and> selectedIndex (state (handleKeyDown (pressed ''j'') (5, 5) sampleWorld)) = Num 1
   \<and> selectedIndex (state (handleKeyDown_p0 (pressed ''j'') sampleWorld)) = Num 1
   \<and> selectedIndex (state (handleKeyDown (pressed ''k'') (5, 5) sampleWorld)) = Num 0
   \<and> selectedIndex (state (handleKeyDown_p0 (pressed ''k'') sampleWorld)) = Num 1"
proof -
  have run: "selectedIndex (state (runKeys [(pressed ''j'', 5, 5), (pressed ''ArrowDown'', 6, 6), (pressed ''k'', 7, 7)] sampleWorld)) = Num 0"
    by (simp add: runKeys_def handleKeyDown_next handleKeyDown_prev isNext_def isPrev_def
          clamp_def results_length_def)
  have run0: "selectedIndex (state (runKeys_p0 [pressed ''j'', pressed ''j'', pressed ''ArrowUp''] sampleWorld)) = Num 1"
    by (simp add: runKeys_p0_def handleKeyDown_p0_next handleKeyDown_p0_prev isNext_def isPrev_def
          results_length_def)
  have steps: "selectedIndex (state sampleWorld) = Num 0
   \<and> length (searchResults (state sampleWorld)) = 2
   \<and> inRange (runKeys [(pressed ''j'', 5, 5), (pressed ''ArrowDown'', 6, 6), (pressed ''k'', 7, 7)] sampleWorld)
   \<and> inRange (runKeys_p0 [pressed ''j'', pressed ''j'', pressed ''ArrowUp''] sampleWorld)
   \<and> selectedIndex (state (handleKeyDown (pressed ''j'') (5, 5) sampleWorld)) = Num 1
   \<and> selectedIndex (state (handleKeyDown_p0 (pressed ''j'') sampleWorld)) = Num 1
   \<and> selectedIndex (state (handleKeyDown (pressed ''k'') (5, 5) sampleWorld)) = Num 0
   \<and> selectedIndex (state (handleKeyDown_p0 (pressed ''k'') sampleWorld)) = Num 1"
    using cursor_stays_in_range[of sampleWorld 0
        "[(pressed ''j'', 5, 5), (pressed ''ArrowDown'', 6, 6), (pressed ''k'', 7, 7)]"
        "[pressed ''j'', pressed ''j'', pressed ''ArrowUp'']" "pressed ''j''" "(5, 5)"]
      cursor_stays_in_range[of sampleWorld 0 "[]" "[]" "pressed ''k''" "(5, 5)"]
    by (simp add: isNext_def isPrev_def)
  from steps run run0 show ?thesis by blast
qed

text \<open>
  C10. In \<^verbatim>\<open>content.js\<close>, a \<open>next\<close> or \<open>prev\<close> key on an empty result list sets the cursor
  to 0 whatever number it held (the clamp between 0 and \<open>length - 1 = -1\<close> gives 0), and
  the highlight call that follows returns at once: the handler's whole effect is the
  suppressed default action and the cursor at 0; page, markers and console are untouched.
  That the cursor of \<^verbatim>\<open>content.js\<close> always holds a number, never \<open>NaN\<close>, is lemma
  \<open>reachable_cursor_number\<close>.
\<close>

theorem move_on_empty_list_resets_cursor:
  assumes "\<not> inputFocused w" and "isNext ev \<or> isPrev ev"
    and "searchResults (state w) = []" and "selectedIndex (state w) = Num i"
  shows "handleKeyDown ev now w = set_selectedIndex (Num 0) (emit PreventDefault w)
       \<and> clamp (js_add (Num i) (Num 1)) (Num 0) (js_sub (results_length w) (Num 1)) = Num 0
       \<and> clamp (js_sub (Num i) (Num 1)) (Num 0) (js_sub (results_length w) (Num 1)) = Num 0
       \<and> selectedIndex (state (handleKeyDown ev now w)) = Num 0
       \<and> dom (handleKeyDown ev now w) = dom w
       \<and> effects (handleKeyDown ev now w) = effects w @ [PreventDefault]"
proof -
  have c: "clamp (js_add (Num i) (Num 1)) (Num 0) (js_sub (results_length w) (Num 1)) = Num 0"
       "clamp (js_sub (Num i) (Num 1)) (Num 0) (js_sub (results_length w) (Num 1)) = Num 0"
    using assms(3) by (simp_all add: results_length_def clamp_empty)
  have h: "handleKeyDown ev now w = set_selectedIndex (Num 0) (emit PreventDefault w)"
  proof (cases "isNext ev")
    case True
    show ?thesis
      using assms(3,4) c(1) by (simp add: handleKeyDown_next[OF assms(1) True] highlightSelected_empty)
  next
    case False
    with assms(2) have "isPrev ev" by simp
    then show ?thesis
      using assms(3,4) c(2) by (simp add: handleKeyDown_prev[OF assms(1)] highlightSelected_empty)
  qed
  show ?thesis unfolding h using c by simp
qed

theorem move_on_empty_list_resets_cursor_witness:
  "searchResults (state emptiedWorld) = [] \<and> selectedIndex (state emptiedWorld) = Num 4
   \<and> handleKeyDown (pressed ''k'') (5, 5) emptiedWorld
       = set_selectedIndex (Num 0) (emit PreventDefault emptiedWorld)
   \<and> selectedIndex (state (handleKeyDown (pressed ''k'') (5, 5) emptiedWorld)) = Num 0
   \<and> effects (handleKeyDown (pressed ''k'') (5, 5) emptiedWorld) = [PreventDefault]"
  using move_on_empty_list_resets_cursor[of emptiedWorld "pressed ''k''" 4 "(5, 5)"]
  by (simp add: isPrev_def)

text \<open>
  C5. In \<^verbatim>\<open>content.js\<close>, outside an input and without meta or ctrl: \<open>G\<close>/\<open>g\<close> with shift
  sets the cursor to \<open>length - 1\<close>; two presses without shift, the second one less than
  1000 ms after the first (its \<^verbatim>\<open>Date.now()\<close> below the first one's plus 1000), leave the
  cursor at 0; one press without shift, when no earlier press armed the binding within
  the last 1000 ms, changes neither the selection state nor the page and only records its
  timestamp (and suppresses the default action); and a key other than \<open>g\<close>/\<open>G\<close> pressed
  after such a lone press, at any later time, 1200 ms included, yields the same selection
  state and page as without it.
\<close>

theorem first_and_last_keys:
  assumes "\<not> inputFocused w" and "isG ev" and "\<not> metaKey ev" and "\<not> ctrlKey ev"
  shows "(shiftKey ev \<longrightarrow>
            selectedIndex (state (handleKeyDown ev now w))
              = Num (int (length (searchResults (state w))) - 1))
       \<and> (\<not> shiftKey ev \<and> isG ev2 \<and> \<not> metaKey ev2 \<and> \<not> ctrlKey ev2 \<and> \<not> shiftKey ev2
            \<and> fst now2 < snd now + 1000 \<longrightarrow>
            selectedIndex (state (handleKeyDown ev2 now2 (handleKeyDown ev now w))) = Num 0)
       \<and> (\<not> shiftKey ev \<and> lastGKeyPress w + 1000 \<le> fst now \<longrightarrow>
            handleKeyDown ev now w = (emit PreventDefault w)\<lparr>lastGKeyPress := snd now\<rparr>
          \<and> (\<not> isG ev3 \<longrightarrow>
                state (handleKeyDown ev3 now3 (handleKeyDown ev now w))
                  = state (handleKeyDown ev3 now3 w)
              \<and> dom (handleKeyDown ev3 now3 (handleKeyDown ev now w))
                  = dom (handleKeyDown ev3 now3 w)))"
proof (intro conjI impI)
  assume "shiftKey ev"
  then show "selectedIndex (state (handleKeyDown ev now w))
               = Num (int (length (searchResults (state w))) - 1)"
    using assms(3,4) by (simp add: handleKeyDown_G[OF assms(1,2)] results_length_def)
next
  assume "\<not> shiftKey ev \<and> isG ev2 \<and> \<not> metaKey ev2 \<and> \<not> ctrlKey ev2 \<and> \<not> shiftKey ev2
            \<and> fst now2 < snd now + 1000"
  then show "selectedIndex (state (handleKeyDown ev2 now2 (handleKeyDown ev now w))) = Num 0"
    using first_after_first[OF assms(1-4), of ev2 now2 now] by blast
next
  assume a: "\<not> shiftKey ev \<and> lastGKeyPress w + 1000 \<le> fst now"
  then show lone: "handleKeyDown ev now w = (emit PreventDefault w)\<lparr>lastGKeyPress := snd now\<rparr>"
    using assms(3,4) by (simp add: handleKeyDown_G[OF assms(1,2)])
  assume "\<not> isG ev3"
  from handleKeyDown_ignores_arm[OF this, of "handleKeyDown ev now w" w now3]
  show "state (handleKeyDown ev3 now3 (handleKeyDown ev now w)) = state (handleKeyDown ev3 now3 w)"
    and "dom (handleKeyDown ev3 now3 (handleKeyDown ev now w)) = dom (handleKeyDown ev3 now3 w)"
    unfolding lone by simp_all
qed

theorem first_and_last_keys_witness:
  "selectedIndex (state (handleKeyDown ((pressed ''G'')\<lparr>shiftKey := True\<rparr>) (5000, 5000) sampleWorld)) = Num 1
   \<and> selectedIndex (state (handleKeyDown (pressed ''g'') (5900, 5900)
        (handleKeyDown (pressed ''g'') (5000, 5000) (set_selectedIndex (Num 1) sampleWorld)))) = Num 0
   \<and> handleKeyDown (pressed ''g'') (5000, 5000) (set_selectedIndex (Num 1) sampleWorld)
       = (emit PreventDefault (set_selectedIndex (Num 1) sampleWorld))\<lparr>lastGKeyPress := 5000\<rparr>
   \<and> state (handleKeyDown (pressed ''k'') (6200, 6200)
        (handleKeyDown (pressed ''g'') (5000, 5000) (set_selectedIndex (Num 1) sampleWorld)))
       = state (handleKeyDown (pressed ''k'') (6200, 6200) (set_selectedIndex (Num 1) sampleWorld))"
proof -
  let ?w = "set_selectedIndex (Num 1) sampleWorld"
  have f: "\<not> inputFocused ?w" by (simp add: inputFocused_def samplePage_def)
  have g: "isG (pressed ''g'')" "isG ((pressed ''G'')\<lparr>shiftKey := True\<rparr>)"
    by (simp_all add: isG_def pressed_def)
  have m: "\<not> metaKey ((pressed ''G'')\<lparr>shiftKey := True\<rparr>)"
    "\<not> ctrlKey ((pressed ''G'')\<lparr>shiftKey := True\<rparr>)"
    by (simp_all add: pressed_def)
  note last = first_and_last_keys[OF sample_unfocused g(2) m, where now = "(5000, 5000)"]
  note first = first_and_last_keys[OF f g(1) pressed_simps(2,3), where now = "(5000, 5000)"
      and ?ev2.0 = "pressed ''g''" and ?now2.0 = "(5900, 5900)"
      and ?ev3.0 = "pressed ''k''" and ?now3.0 = "(6200, 6200)"]
  have 1: "selectedIndex (state (handleKeyDown ((pressed ''G'')\<lparr>shiftKey := True\<rparr>) (5000, 5000) sampleWorld)) = Num 1"
    using last[THEN conjunct1] by simp
  have 2: "selectedIndex (state (handleKeyDown (pressed ''g'') (5900, 5900)
             (handleKeyDown (pressed ''g'') (5000, 5000) ?w))) = Num 0"
    by (rule first[THEN conjunct2, THEN conjunct1, THEN mp]) (simp add: g)
  have 3: "handleKeyDown (pressed ''g'') (5000, 5000) ?w
             = (emit PreventDefault ?w)\<lparr>lastGKeyPress := 5000\<rparr>
         \<and> (\<not> isG (pressed ''k'') \<longrightarrow>
               state (handleKeyDown (pressed ''k'') (6200, 6200)
                  (handleKeyDown (pressed ''g'') (5000, 5000) ?w))
                 = state (handleKeyDown (pressed ''k'') (6200, 6200) ?w)
             \<and> dom (handleKeyDown (pressed ''k'') (6200, 6200)
                  (handleKeyDown (pressed ''g'') (5000, 5000) ?w))
                 = dom (handleKeyDown (pressed ''k'') (6200, 6200) ?w))"
    by (rule first[THEN conjunct2, THEN conjunct2, THEN mp, unfolded fst_conv snd_conv]) simp
  have k: "\<not> isG (pressed ''k'')" by (simp add: isG_def)
  from 1 2 3 k show ?thesis by blast
qed

text \<open>
  C6. When the selected entry exists and has no anchor descendant, \<open>Enter\<close>/\<open>Space\<close> in
  both revisions only suppresses the default action and logs \<open>Link not found\<close>: no
  \<^verbatim>\<open>window.open\<close>, no assignment to \<^verbatim>\<open>location.href\<close>, state (cursor included) and page
  unchanged.
\<close>

theorem activation_without_link:
  assumes "\<not> inputFocused w" and "isActivate ev"
    and "js_index (searchResults (state w)) (selectedIndex (state w)) = Some el"
    and "querySelector (dom w) el ''a'' = None"
  shows "handleKeyDown ev now w = emit (ConsoleError ''Link not found'' []) (emit PreventDefault w)
       \<and> handleKeyDown_p0 ev w = emit (ConsoleError ''Link not found'' []) (emit PreventDefault w)
       \<and> effects (handleKeyDown ev now w)
           = effects w @ [PreventDefault, ConsoleError ''Link not found'' []]
       \<and> effects (handleKeyDown_p0 ev w)
           = effects w @ [PreventDefault, ConsoleError ''Link not found'' []]
       \<and> state (handleKeyDown ev now w) = state w \<and> state (handleKeyDown_p0 ev w) = state w
       \<and> dom (handleKeyDown ev now w) = dom w \<and> dom (handleKeyDown_p0 ev w) = dom w"
  using assms(3,4)
  by (simp add: handleKeyDown_activate[OF assms(1,2)] handleKeyDown_p0_activate[OF assms(1,2)])

theorem activation_without_link_witness:
  "js_index (searchResults (state (set_selectedIndex (Num 1) sampleWorld)))
      (selectedIndex (state (set_selectedIndex (Num 1) sampleWorld))) = Some 6
   \<and> querySelector samplePage 6 ''a'' = None
   \<and> effects (handleKeyDown (pressed ''Enter'') (5, 5) (set_selectedIndex (Num 1) sampleWorld))
       = [PreventDefault, ConsoleError ''Link not found'' []]
   \<and> effects (handleKeyDown_p0 (pressed '' '') (set_selectedIndex (Num 1) sampleWorld))
       = [PreventDefault, ConsoleError ''Link not found'' []]
   \<and> selectedIndex (state (handleKeyDown (pressed ''Enter'') (5, 5) (set_selectedIndex (Num 1) sampleWorld)))
       = Num 1"
  using activation_without_link[of "set_selectedIndex (Num 1) sampleWorld" "pressed ''Enter''" 6 "(5, 5)"]
    activation_without_link[of "set_selectedIndex (Num 1) sampleWorld" "pressed '' ''" 6 "(5, 5)"]
  by (simp add: isActivate_def inputFocused_def samplePage_def)

text \<open>
  C8, as the code has it. A run of the highlight that reaches its marker step (the
  selected entry exists) ends, in both revisions, with the selected entry carrying the
  marker and no other element of the document carrying it. When the selected entry is
  the one marked element of the document, the page is left as it was; otherwise the
  marker is removed from every marked element of the document and then added to the
  selected entry. The run looks for marked elements in the document only: an element
  outside the document, other than the selected entry, keeps the class list it had, its
  marker included, so two result entries can carry the marker once the container has
  left the document.
\<close>

theorem one_marker_after_highlight:
  assumes "js_index (searchResults (state w)) (selectedIndex (state w)) = Some el"
  shows "(\<forall>w' \<in> {highlightSelected w, highlightSelected_p0 w}.
            marked (dom w') el
          \<and> (\<forall>e \<in> set (elements (dom w')). marked (dom w') e \<longrightarrow> e = el)
          \<and> (highlightedElements (dom w) = [el] \<longrightarrow> dom w' = dom w)
          \<and> (highlightedElements (dom w) \<noteq> [el] \<longrightarrow>
                dom w' = classList_add highlightClass el
                           (foldl (classList_remove highlightClass) (dom w)
                              (highlightedElements (dom w)))
              \<and> (\<forall>e. e \<noteq> el \<longrightarrow>
                    classList (dom w') e =
                      (if e \<in> set (highlightedElements (dom w))
                       then removeAll highlightClass (classList (dom w) e)
                       else classList (dom w) e)))
          \<and> (\<forall>e. e \<noteq> el \<and> e \<notin> set (elements (dom w)) \<longrightarrow>
                classList (dom w') e = classList (dom w) e))"
proof -
  have d: "dom (highlightSelected w) = moveMarker (dom w) el"
    "dom (highlightSelected_p0 w) = moveMarker (dom w) el"
    using assms by (rule highlightSelected_dom, rule highlightSelected_p0_dom)
  have m: "marked (moveMarker (dom w) el) el
         \<and> (\<forall>e \<in> set (elements (moveMarker (dom w) el)). marked (moveMarker (dom w) el) e \<longrightarrow> e = el)
         \<and> (highlightedElements (dom w) = [el] \<longrightarrow> moveMarker (dom w) el = dom w)
         \<and> (highlightedElements (dom w) \<noteq> [el] \<longrightarrow>
               moveMarker (dom w) el = classList_add highlightClass el
                           (foldl (classList_remove highlightClass) (dom w)
                              (highlightedElements (dom w)))
             \<and> (\<forall>e. e \<noteq> el \<longrightarrow>
                    classList (moveMarker (dom w) el) e =
                      (if e \<in> set (highlightedElements (dom w))
                       then removeAll highlightClass (classList (dom w) e)
                       else classList (dom w) e)))
         \<and> (\<forall>e. e \<noteq> el \<and> e \<notin> set (elements (dom w)) \<longrightarrow>
               classList (moveMarker (dom w) el) e = classList (dom w) e)"
  proof (intro conjI ballI impI allI)
    show "marked (moveMarker (dom w) el) el" by (rule moveMarker_target)
  next
    fix e assume "e \<in> set (elements (moveMarker (dom w) el))" "marked (moveMarker (dom w) el) e"
    then show "e = el" using moveMarker_others[of e "dom w" el] by simp
  next
    assume "highlightedElements (dom w) = [el]"
    then show "moveMarker (dom w) el = dom w" by (simp add: moveMarker_def)
  next
    assume "highlightedElements (dom w) \<noteq> [el]"
    then show "moveMarker (dom w) el = classList_add highlightClass el
                 (foldl (classList_remove highlightClass) (dom w) (highlightedElements (dom w)))"
      by (simp add: moveMarker_def)
  next
    fix e assume "highlightedElements (dom w) \<noteq> [el]" "e \<noteq> el"
    then show "classList (moveMarker (dom w) el) e =
                 (if e \<in> set (highlightedElements (dom w))
                  then removeAll highlightClass (classList (dom w) e)
                  else classList (dom w) e)"
      by (rule moveMarker_classList)
  next
    fix e assume "e \<noteq> el \<and> e \<notin> set (elements (dom w))"
    then show "classList (moveMarker (dom w) el) e = classList (dom w) e"
      using moveMarker_outside[of e el "dom w"] by simp
  qed
  show ?thesis
  proof (rule ballI)
    fix w' assume a: "w' \<in> {highlightSelected w, highlightSelected_p0 w}"
    have e: "dom w' = moveMarker (dom w) el" using a d by auto
    show "marked (dom w') el
          \<and> (\<forall>e \<in> set (elements (dom w')). marked (dom w') e \<longrightarrow> e = el)
          \<and> (highlightedElements (dom w) = [el] \<longrightarrow> dom w' = dom w)
          \<and> (highlightedElements (dom w) \<noteq> [el] \<longrightarrow>
                dom w' = classList_add highlightClass el
                           (foldl (classList_remove highlightClass) (dom w)
                              (highlightedElements (dom w)))
              \<and> (\<forall>e. e \<noteq> el \<longrightarrow>
                    classList (dom w') e =
                      (if e \<in> set (highlightedElements (dom w))
                       then removeAll highlightClass (classList (dom w) e)
                       else classList (dom w) e)))
          \<and> (\<forall>e. e \<noteq> el \<and> e \<notin> set (elements (dom w)) \<longrightarrow>
                classList (dom w') e = classList (dom w) e)"
      unfolding e by (rule m)
  qed
qed

theorem one_marker_after_highlight_witness:
  "js_index (searchResults (state (set_selectedIndex (Num 1) sampleWorld)))
      (selectedIndex (state (set_selectedIndex (Num 1) sampleWorld))) = Some 6
   \<and> highlightedElements samplePage = [3]
   \<and> marked (dom (highlightSelected (set_selectedIndex (Num 1) sampleWorld))) 6
   \<and> \<not> marked (dom (highlightSelected (set_selectedIndex (Num 1) sampleWorld))) 3
   \<and> classList (dom (highlightSelected (set_selectedIndex (Num 1) sampleWorld))) 3 = [''g'']
   \<and> classList (dom (highlightSelected_p0 (set_selectedIndex (Num 1) sampleWorld))) 3 = [''g'']
   \<and> dom (highlightSelected sampleWorld) = samplePage
   \<and> dom (highlightSelected_p0 sampleWorld) = samplePage"
proof -
  let ?w = "set_selectedIndex (Num 1) sampleWorld"
  have i: "js_index (searchResults (state ?w)) (selectedIndex (state ?w)) = Some 6"
    "js_index (searchResults (state sampleWorld)) (selectedIndex (state sampleWorld)) = Some 3"
    by simp_all
  have h: "highlightedElements samplePage = [3]"
    by (simp add: highlightedElements_def samplePage_def highlightClass_def)
  have c: "removeAll highlightClass (classList samplePage 3) = [''g'']"
    by (simp add: samplePage_def highlightClass_def)
  note moved = one_marker_after_highlight[OF i(1), THEN bspec]
  note kept = one_marker_after_highlight[OF i(2), THEN bspec]
  have a: "marked (dom (highlightSelected ?w)) 6"
    by (rule moved[THEN conjunct1]) simp
  have "\<forall>e \<in> set (elements (dom (highlightSelected ?w))). marked (dom (highlightSelected ?w)) e \<longrightarrow> e = 6"
    by (rule moved[THEN conjunct2, THEN conjunct1]) simp
  then have b: "\<not> marked (dom (highlightSelected ?w)) 3"
    by (auto simp add: samplePage_def)
  have ne: "highlightedElements (dom ?w) \<noteq> [6]" by (simp add: h)
  have "\<forall>e. e \<noteq> 6 \<longrightarrow> classList (dom (highlightSelected ?w)) e =
          (if e \<in> set (highlightedElements (dom ?w))
           then removeAll highlightClass (classList (dom ?w) e) else classList (dom ?w) e)"
    by (rule moved[THEN conjunct2, THEN conjunct2, THEN conjunct2, THEN conjunct1, THEN mp, OF _ ne, THEN conjunct2]) simp
  then have c1: "classList (dom (highlightSelected ?w)) 3 = [''g'']"
    by (simp add: h c)
  have "\<forall>e. e \<noteq> 6 \<longrightarrow> classList (dom (highlightSelected_p0 ?w)) e =
          (if e \<in> set (highlightedElements (dom ?w))
           then removeAll highlightClass (classList (dom ?w) e) else classList (dom ?w) e)"
    by (rule moved[THEN conjunct2, THEN conjunct2, THEN conjunct2, THEN conjunct1, THEN mp, OF _ ne, THEN conjunct2]) simp
  then have c2: "classList (dom (highlightSelected_p0 ?w)) 3 = [''g'']"
    by (simp add: h c)
  have h0: "highlightedElements (dom sampleWorld) = [3]" by (simp add: h)
  have d1: "dom (highlightSelected sampleWorld) = dom sampleWorld"
    by (rule kept[THEN conjunct2, THEN conjunct2, THEN conjunct1, THEN mp, OF _ h0]) simp
  have d2: "dom (highlightSelected_p0 sampleWorld) = dom sampleWorld"
    by (rule kept[THEN conjunct2, THEN conjunct2, THEN conjunct1, THEN mp, OF _ h0]) simp
  from i(1) h a b c1 c2 d1 d2 show ?thesis by simp
qed

theorem two_entries_marked_counterexample:
  "reachable containerGoneWorld
   \<and> searchResults (state containerGoneWorld) = [3, 6, 12]
   \<and> selectedIndex (state containerGoneWorld) = Num 0
   \<and> marked (dom containerGoneWorld) 3
   \<and> handleKeyDown (pressed ''j'') (5, 5) containerGoneWorld
       = highlightSelected (set_selectedIndex (Num 1) (emit PreventDefault containerGoneWorld))
   \<and> js_index (searchResults (state containerGoneWorld)) (Num 1) = Some 6
   \<and> marked (dom (handleKeyDown (pressed ''j'') (5, 5) containerGoneWorld)) 3
   \<and> marked (dom (handleKeyDown (pressed ''j'') (5, 5) containerGoneWorld)) 6
   \<and> marked (dom (highlightSelected_p0 (set_selectedIndex (Num 1) containerGoneWorld))) 3
   \<and> marked (dom (highlightSelected_p0 (set_selectedIndex (Num 1) containerGoneWorld))) 6"
proof -
  note f = containerGoneWorld_fields
  have k: "handleKeyDown (pressed ''j'') (5, 5) containerGoneWorld
       = highlightSelected (set_selectedIndex (Num 1) (emit PreventDefault containerGoneWorld))"
    by (simp add: handleKeyDown_next[OF f(5)] isNext_def f clamp_def results_length_def)
  have h: "highlightedElements (dom containerGoneWorld) = []"
    by (simp add: highlightedElements_def f)
  have m: "moveMarker (dom containerGoneWorld) 6
             = classList_add highlightClass 6 (dom containerGoneWorld)"
    by (simp add: moveMarker_def h)
  have d: "dom (handleKeyDown (pressed ''j'') (5, 5) containerGoneWorld)
             = classList_add highlightClass 6 (dom containerGoneWorld)"
    unfolding k by (subst highlightSelected_dom[of _ 6]) (simp_all add: f m)
  have d0: "dom (highlightSelected_p0 (set_selectedIndex (Num 1) containerGoneWorld))
             = classList_add highlightClass 6 (dom containerGoneWorld)"
    by (subst highlightSelected_p0_dom[of _ 6]) (simp_all add: f m)
  have a: "marked (dom containerGoneWorld) 3" by (simp add: marked_def f)
  have b: "marked (classList_add highlightClass 6 (dom containerGoneWorld)) 3"
    "marked (classList_add highlightClass 6 (dom containerGoneWorld)) 6"
    using a by (simp_all add: marked_added)
  show ?thesis
    unfolding d d0 using containerGoneWorld_reachable f(1,2) a k b by simp
qed

text \<open>
  C7, as the code has it. On a page that is a tree the extractor returns. It resolves
  each heading of the container, in the order \<^verbatim>\<open>querySelectorAll\<close> lists them, to the
  nearest element with a language attribute on the chain from the heading (itself
  first) up through its ancestors (the root last), or, when no element of the chain has
  the attribute, to the topmost element of the chain, logging one error for such a
  heading and going on with the next. Of the resolved elements it keeps, in order, those
  whose tag is \<open>DIV\<close>. So a heading is logged exactly when nothing on its chain, root
  included, has the attribute; such a heading is skipped unless the topmost element of
  its chain is a \<open>DIV\<close>, hence always when every chain ends in an element that is no
  \<open>DIV\<close>, as the \<open>HTML\<close> root of a document.
\<close>

theorem extractor_spec:
  assumes "treeLike d"
  shows "\<exists>picked.
           list_all2 (resolvesTo d) (querySelectorAll d se ''h3'') picked
         \<and> extractSearchResults d se fx =
             Some (filter (\<lambda>r. tagName d r = ''DIV'') picked,
                   fx @ map (\<lambda>r. parentNullError) (filter (\<lambda>r. \<not> hasLang d r) picked))
         \<and> ((\<forall>t. parentElement d t = None \<longrightarrow> tagName d t \<noteq> ''DIV'') \<longrightarrow>
              filter (\<lambda>r. tagName d r = ''DIV'') picked
                = filter (\<lambda>r. tagName d r = ''DIV'' \<and> hasLang d r) picked)"
proof -
  from extractLoop_spec[OF assms, of "querySelectorAll d se ''h3''" "[]" fx]
  obtain picked where p: "list_all2 (resolvesTo d) (querySelectorAll d se ''h3'') picked"
    "extractSearchResults d se fx =
       Some (filter (\<lambda>r. tagName d r = ''DIV'') picked,
             fx @ map (\<lambda>r. parentNullError) (filter (\<lambda>r. \<not> hasLang d r) picked))"
    by (auto simp add: extractSearchResults_def)
  have "filter (\<lambda>r. tagName d r = ''DIV'') picked
          = filter (\<lambda>r. tagName d r = ''DIV'' \<and> hasLang d r) picked"
    if top: "\<forall>t. parentElement d t = None \<longrightarrow> tagName d t \<noteq> ''DIV''"
  proof (rule filter_cong[OF refl])
    fix r assume "r \<in> set picked"
    then obtain i where i: "i < length picked" "picked ! i = r"
      by (auto simp add: in_set_conv_nth)
    with p(1) have "resolvesTo d (querySelectorAll d se ''h3'' ! i) r"
      by (auto dest: list_all2_nthD2)
    then have "hasLang d r \<or> parentElement d r = None"
      by (auto simp add: resolvesTo_def nearestLangAncestor_def topmostWithoutLang_def)
    with top show "(tagName d r = ''DIV'') = (tagName d r = ''DIV'' \<and> hasLang d r)"
      by auto
  qed
  with p show ?thesis by blast
qed

theorem extractor_spec_witness:
  "treeLike samplePage
   \<and> (\<exists>picked. list_all2 (resolvesTo samplePage) [4, 7, 9, 10, 13] picked
        \<and> Some ([3, 6, 12], [parentNullError]) =
            Some (filter (\<lambda>r. tagName samplePage r = ''DIV'') picked,
                  [] @ map (\<lambda>r. parentNullError) (filter (\<lambda>r. \<not> hasLang samplePage r) picked)))
   \<and> extractSearchResults samplePage 2 [] = Some ([3, 6, 12], [parentNullError])"
proof -
  have e: "extractSearchResults samplePage 2 [] = Some ([3, 6, 12], [parentNullError])"
    using sample_extraction[of "[]"] by simp
  have q: "querySelectorAll samplePage 2 ''h3'' = [4, 7, 9, 10, 13]"
    by (simp add: samplePage_fields)
  from extractor_spec[OF samplePage_treeLike, of 2 "[]", unfolded e q]
  have "\<exists>picked. list_all2 (resolvesTo samplePage) [4, 7, 9, 10, 13] picked
        \<and> Some ([3, 6, 12], [parentNullError]) =
            Some (filter (\<lambda>r. tagName samplePage r = ''DIV'') picked,
                  [] @ map (\<lambda>r. parentNullError) (filter (\<lambda>r. \<not> hasLang samplePage r) picked))"
    by blast
  with samplePage_treeLike e show ?thesis by blast
qed

theorem lang_less_heading_kept_counterexample:
  "treeLike detachedPage
   \<and> querySelectorAll detachedPage 1 ''h3'' = [2]
   \<and> getAttribute detachedPage 2 ''lang'' = None
   \<and> parentElement detachedPage 2 = Some 1
   \<and> getAttribute detachedPage 1 ''lang'' = None
   \<and> parentElement detachedPage 1 = None
   \<and> extractSearchResults detachedPage 1 [] = Some ([1], [ConsoleError ''Parent element is null'' []])
   \<and> treeLike langRootPage
   \<and> querySelectorAll langRootPage 2 ''h3'' = [4, 7, 9, 10, 13]
   \<and> getAttribute langRootPage 10 ''lang'' = None
   \<and> parentElement langRootPage 10 = Some 2
   \<and> getAttribute langRootPage 2 ''lang'' = None
   \<and> parentElement langRootPage 2 = Some 1
   \<and> getAttribute langRootPage 1 ''lang'' = None
   \<and> parentElement langRootPage 1 = Some 0
   \<and> parentElement langRootPage 0 = None
   \<and> extractSearchResults langRootPage 2 [] = Some ([3, 6, 12], [])"
proof -
  have "treeLike langRootPage"
    using samplePage_treeLike by (simp add: langRootPage_def treeLike_def parentRel_def)
  with detachedPage_treeLike show ?thesis
    by (simp add: detachedPage_def langRootPage_def samplePage_def extractSearchResults_def
          walkUp.simps)
qed

text \<open>
  C3. In \<^verbatim>\<open>content.js\<close>, on a page that is a tree, the refresh runs the highlight exactly
  when the length of the list it replaces is \<open><=\<close> the cursor: then the result is the
  highlight of the refreshed world (and the selected entry, if there is one, ends up
  marked); otherwise the result is the refreshed world itself, with the page, and so
  every marker, as it was. In particular a refresh that finds the old entries and two new
  ones, while the cursor is an index of the old list, changes no marker.
\<close>

theorem refresh_highlights_only_past_old_end:
  assumes "treeLike (dom w)"
  shows "\<exists>rs fx.
           extractSearchResults (dom w) se (effects w) = Some (rs, fx)
         \<and> (js_le (results_length w) (selectedIndex (state w)) \<longrightarrow>
              handleSearchResultsChanged se w = Some (highlightSelected (refreshed w rs fx))
            \<and> (\<forall>el. js_index rs (selectedIndex (state w)) = Some el \<longrightarrow>
                  marked (dom (highlightSelected (refreshed w rs fx))) el))
         \<and> (\<not> js_le (results_length w) (selectedIndex (state w)) \<longrightarrow>
              handleSearchResultsChanged se w = Some (refreshed w rs fx)
            \<and> dom (refreshed w rs fx) = dom w
            \<and> effects (refreshed w rs fx) = fx)
         \<and> (\<forall>i x y. selectedIndex (state w) = Num i \<and> 0 \<le> i
                \<and> i < int (length (searchResults (state w)))
                \<and> rs = searchResults (state w) @ [x, y] \<longrightarrow>
              (\<exists>w'. handleSearchResultsChanged se w = Some w'
                  \<and> dom w' = dom w
                  \<and> (\<forall>e. marked (dom w') e = marked (dom w) e)
                  \<and> searchResults (state w') = searchResults (state w) @ [x, y]
                  \<and> selectedIndex (state w') = Num i))"
proof -
  from extractSearchResults_total[OF assms, of se "effects w"]
  obtain rs fx where e: "extractSearchResults (dom w) se (effects w) = Some (rs, fx)"
    by blast
  note eq = handleSearchResultsChanged_eq[OF e]
  have a: "handleSearchResultsChanged se w = Some (highlightSelected (refreshed w rs fx))"
    if "js_le (results_length w) (selectedIndex (state w))"
    using that eq by simp
  have b: "marked (dom (highlightSelected (refreshed w rs fx))) el"
    if "js_index rs (selectedIndex (state w)) = Some el" for el
    using that highlightSelected_dom[of "refreshed w rs fx" el] moveMarker_target[of "dom w" el]
    by simp
  have c: "handleSearchResultsChanged se w = Some (refreshed w rs fx)"
    if "\<not> js_le (results_length w) (selectedIndex (state w))"
    using that eq by simp
  have d: "\<not> js_le (results_length w) (selectedIndex (state w))"
    if "selectedIndex (state w) = Num i" "i < int (length (searchResults (state w)))" for i
    using that by (simp add: results_length_def)
  have f: "\<exists>w'. handleSearchResultsChanged se w = Some w'
                  \<and> dom w' = dom w
                  \<and> (\<forall>e. marked (dom w') e = marked (dom w) e)
                  \<and> searchResults (state w') = searchResults (state w) @ [x, y]
                  \<and> selectedIndex (state w') = Num i"
    if "selectedIndex (state w) = Num i" "i < int (length (searchResults (state w)))"
      "rs = searchResults (state w) @ [x, y]" for i x y
    using c[OF d[OF that(1,2)]] that(1,3) by simp
  show ?thesis
    using e a b c f by (intro exI[of _ rs] exI[of _ fx]) simp
qed

theorem refresh_highlights_only_past_old_end_witness:
  "treeLike (dom oneResultWorld)
   \<and> selectedIndex (state oneResultWorld) = Num 0
   \<and> searchResults (state oneResultWorld) = [3]
   \<and> extractSearchResults (dom oneResultWorld) 2 (effects oneResultWorld)
       = Some ([3] @ [6, 12], [parentNullError])
   \<and> (\<exists>w'. handleSearchResultsChanged 2 oneResultWorld = Some w'
          \<and> dom w' = dom oneResultWorld
          \<and> searchResults (state w') = [3, 6, 12] \<and> selectedIndex (state w') = Num 0)
   \<and> handleSearchResultsChanged 2 emptiedWorld
       = Some (highlightSelected (refreshed emptiedWorld [3, 6, 12] [parentNullError]))"
proof -
  note o = oneResultWorld_facts
  from refresh_highlights_only_past_old_end[OF o(1), of 2]
  obtain rs fx where r: "extractSearchResults (dom oneResultWorld) 2 (effects oneResultWorld) = Some (rs, fx)"
    "\<forall>i x y. selectedIndex (state oneResultWorld) = Num i \<and> 0 \<le> i
                \<and> i < int (length (searchResults (state oneResultWorld)))
                \<and> rs = searchResults (state oneResultWorld) @ [x, y] \<longrightarrow>
              (\<exists>w'. handleSearchResultsChanged 2 oneResultWorld = Some w'
                  \<and> dom w' = dom oneResultWorld
                  \<and> (\<forall>e. marked (dom w') e = marked (dom oneResultWorld) e)
                  \<and> searchResults (state w') = searchResults (state oneResultWorld) @ [x, y]
                  \<and> selectedIndex (state w') = Num i)"
    by blast
  from r(1) o(2) have rs: "rs = [3, 6, 12]" by simp
  from r(2)[rule_format, of 0 6 12] have 1:
    "\<exists>w'. handleSearchResultsChanged 2 oneResultWorld = Some w'
          \<and> dom w' = dom oneResultWorld
          \<and> searchResults (state w') = [3, 6, 12] \<and> selectedIndex (state w') = Num 0"
    unfolding rs o(3,4) by auto
  note m = emptiedWorld_facts
  from refresh_highlights_only_past_old_end[OF m(1), of 2]
  obtain rs' fx' where r': "extractSearchResults (dom emptiedWorld) 2 (effects emptiedWorld) = Some (rs', fx')"
    "js_le (results_length emptiedWorld) (selectedIndex (state emptiedWorld)) \<longrightarrow>
       handleSearchResultsChanged 2 emptiedWorld
         = Some (highlightSelected (refreshed emptiedWorld rs' fx'))"
    by blast
  from r'(1) m(2) have "rs' = [3, 6, 12]" "fx' = [parentNullError]" by simp_all
  with r'(2) have 2: "handleSearchResultsChanged 2 emptiedWorld
       = Some (highlightSelected (refreshed emptiedWorld [3, 6, 12] [parentNullError]))"
    by (simp add: m(3))
  from o 1 2 show ?thesis by simp
qed

text \<open>
  C4, as the code has it. On a page that is a tree the refresh of either revision
  returns. When the cursor is no index of the list the refresh extracted (the list is
  empty or too short, or the cursor is negative or \<open>NaN\<close>), nothing is dereferenced,
  highlighted or navigated: the refresh and the highlight of \<^verbatim>\<open>part_000\<close> log
  \<open>Selected element is undefined\<close> and return; the refresh of \<^verbatim>\<open>content.js\<close> runs the
  highlight only if the old length was \<open><=\<close> the cursor, and that highlight logs the
  message when the new list is not empty and returns without any report when it is
  empty; \<open>Enter\<close>/\<open>Space\<close> in both revisions suppress the default action, log the message
  and return.
\<close>

theorem cursor_past_end_is_harmless:
  assumes "treeLike (dom w)"
  shows "\<exists>rs fx.
           extractSearchResults (dom w) se (effects w) = Some (rs, fx)
         \<and> (js_index rs (selectedIndex (state w)) = None \<longrightarrow>
              handleSearchResultsChanged_p0 se w = Some (emit undefinedError (refreshed w rs fx))
            \<and> handleSearchResultsChanged se w =
                Some (if js_le (results_length w) (selectedIndex (state w)) \<and> rs \<noteq> []
                      then emit (ConsoleError ''Selected element is undefined''
                                   [Num (int (length rs)), selectedIndex (state w)])
                             (refreshed w rs fx)
                      else refreshed w rs fx)
            \<and> highlightSelected_p0 (refreshed w rs fx) = emit undefinedError (refreshed w rs fx)
            \<and> highlightSelected (refreshed w rs fx) =
                (if rs = [] then refreshed w rs fx
                 else emit (ConsoleError ''Selected element is undefined''
                              [Num (int (length rs)), selectedIndex (state w)])
                        (refreshed w rs fx))
            \<and> (\<not> inputFocused w \<and> isActivate ev \<longrightarrow>
                  handleKeyDown ev now (refreshed w rs fx)
                    = emit undefinedError (emit PreventDefault (refreshed w rs fx))
                \<and> handleKeyDown_p0 ev (refreshed w rs fx)
                    = emit undefinedError (emit PreventDefault (refreshed w rs fx))))"
proof -
  from extractSearchResults_total[OF assms, of se "effects w"]
  obtain rs fx where e: "extractSearchResults (dom w) se (effects w) = Some (rs, fx)"
    by blast
  let ?r = "refreshed w rs fx"
  have "handleSearchResultsChanged_p0 se w = Some (emit undefinedError ?r)
      \<and> handleSearchResultsChanged se w =
                Some (if js_le (results_length w) (selectedIndex (state w)) \<and> rs \<noteq> []
                      then emit (ConsoleError ''Selected element is undefined''
                                   [Num (int (length rs)), selectedIndex (state w)]) ?r
                      else ?r)
      \<and> highlightSelected_p0 ?r = emit undefinedError ?r
      \<and> highlightSelected ?r =
                (if rs = [] then ?r
                 else emit (ConsoleError ''Selected element is undefined''
                              [Num (int (length rs)), selectedIndex (state w)]) ?r)
      \<and> (\<not> inputFocused w \<and> isActivate ev \<longrightarrow>
                  handleKeyDown ev now ?r = emit undefinedError (emit PreventDefault ?r)
                \<and> handleKeyDown_p0 ev ?r = emit undefinedError (emit PreventDefault ?r))"
    if u: "js_index rs (selectedIndex (state w)) = None"
  proof -
    have u': "js_index (searchResults (state ?r)) (selectedIndex (state ?r)) = None"
      using u by simp
    have h: "highlightSelected ?r =
                (if rs = [] then ?r
                 else emit (ConsoleError ''Selected element is undefined''
                              [Num (int (length rs)), selectedIndex (state w)]) ?r)"
      using highlightSelected_undefined[OF u'] by simp
    have h0: "highlightSelected_p0 ?r = emit undefinedError ?r"
      by (rule highlightSelected_p0_undefined[OF u'])
    have k: "handleKeyDown ev now ?r = emit undefinedError (emit PreventDefault ?r)
           \<and> handleKeyDown_p0 ev ?r = emit undefinedError (emit PreventDefault ?r)"
      if "\<not> inputFocused w \<and> isActivate ev"
      using activate_undefined[OF u'] that by simp
    have r0: "handleSearchResultsChanged_p0 se w = Some (emit undefinedError ?r)"
      using handleSearchResultsChanged_p0_eq[OF e] h0 by simp
    have r1: "handleSearchResultsChanged se w =
                Some (if js_le (results_length w) (selectedIndex (state w)) \<and> rs \<noteq> []
                      then emit (ConsoleError ''Selected element is undefined''
                                   [Num (int (length rs)), selectedIndex (state w)]) ?r
                      else ?r)"
      using handleSearchResultsChanged_eq[OF e] h
      by (cases "js_le (results_length w) (selectedIndex (state w))"; cases "rs = []"; simp)
    from r0 r1 h0 h k show ?thesis by blast
  qed
  then show ?thesis
    using e by (intro exI[of _ rs] exI[of _ fx] conjI[of "extractSearchResults (dom w) se (effects w) = Some (rs, fx)"] impI)
qed

theorem cursor_past_end_is_harmless_witness:
  "treeLike (dom emptiedWorld)
   \<and> extractSearchResults (dom emptiedWorld) 2 (effects emptiedWorld)
       = Some ([3, 6, 12], [parentNullError])
   \<and> js_index [3, 6, 12] (selectedIndex (state emptiedWorld)) = None
   \<and> handleSearchResultsChanged_p0 2 emptiedWorld
       = Some (emit undefinedError (refreshed emptiedWorld [3, 6, 12] [parentNullError]))
   \<and> handleSearchResultsChanged 2 emptiedWorld
       = Some (emit (ConsoleError ''Selected element is undefined'' [Num 3, Num 4])
                 (refreshed emptiedWorld [3, 6, 12] [parentNullError]))
   \<and> handleKeyDown (pressed ''Enter'') (5, 5) (refreshed emptiedWorld [3, 6, 12] [parentNullError])
       = emit undefinedError
           (emit PreventDefault (refreshed emptiedWorld [3, 6, 12] [parentNullError]))"
proof -
  note m = emptiedWorld_facts
  have u: "js_index [3, 6, 12] (selectedIndex (state emptiedWorld)) = None" by simp
  have a: "\<not> inputFocused emptiedWorld \<and> isActivate (pressed ''Enter'')"
    by (simp add: isActivate_def)
  from cursor_past_end_is_harmless[OF m(1), of 2 "pressed ''Enter''" "(5, 5)", unfolded m(2)]
  have "handleSearchResultsChanged_p0 2 emptiedWorld
          = Some (emit undefinedError (refreshed emptiedWorld [3, 6, 12] [parentNullError]))
      \<and> handleSearchResultsChanged 2 emptiedWorld =
          Some (if js_le (results_length emptiedWorld) (selectedIndex (state emptiedWorld))
                   \<and> [3, 6, 12] \<noteq> ([] :: elem list)
                then emit (ConsoleError ''Selected element is undefined''
                             [Num (int (length [3 :: elem, 6, 12])), selectedIndex (state emptiedWorld)])
                       (refreshed emptiedWorld [3, 6, 12] [parentNullError])
                else refreshed emptiedWorld [3, 6, 12] [parentNullError])
      \<and> handleKeyDown (pressed ''Enter'') (5, 5) (refreshed emptiedWorld [3, 6, 12] [parentNullError])
          = emit undefinedError
              (emit PreventDefault (refreshed emptiedWorld [3, 6, 12] [parentNullError]))"
    using u a by blast
  with m u show ?thesis by (simp add: results_length_def)
qed

theorem silent_on_empty_list_counterexample:
  "selectedIndex (state shrinkingWorld) = Num 4
   \<and> searchResults (state shrinkingWorld) = [3, 6]
   \<and> js_le (results_length shrinkingWorld) (selectedIndex (state shrinkingWorld))
   \<and> extractSearchResults (dom shrinkingWorld) 2 (effects shrinkingWorld) = Some ([], [])
   \<and> handleSearchResultsChanged 2 shrinkingWorld = Some (refreshed shrinkingWorld [] [])
   \<and> highlightSelected (refreshed shrinkingWorld [] []) = refreshed shrinkingWorld [] []
   \<and> effects (refreshed shrinkingWorld [] []) = []"
  using handleSearchResultsChanged_eq[OF shrinkingWorld_facts(2)] shrinkingWorld_facts
  by (simp add: highlightSelected_empty shrinkingWorld_def)

text \<open>
  C9. On a page that is a tree, the refresh of either revision returns, and the world it
  returns holds the cursor it found: \<^verbatim>\<open>handleSearchResultsChanged\<close> replaces the result
  list by the extracted one and may run the highlight, and neither touches
  \<open>selectedIndex\<close>, whatever its value and whatever list is extracted.
\<close>

theorem refresh_never_moves_cursor:
  assumes "treeLike (dom w)"
  shows "\<exists>rs fx w' w0.
           extractSearchResults (dom w) se (effects w) = Some (rs, fx)
         \<and> handleSearchResultsChanged se w = Some w'
         \<and> selectedIndex (state w') = selectedIndex (state w)
         \<and> searchResults (state w') = rs
         \<and> handleSearchResultsChanged_p0 se w = Some w0
         \<and> selectedIndex (state w0) = selectedIndex (state w)
         \<and> searchResults (state w0) = rs"
proof -
  from extractSearchResults_total[OF assms, of se "effects w"]
  obtain rs fx where e: "extractSearchResults (dom w) se (effects w) = Some (rs, fx)"
    by blast
  show ?thesis
    using e handleSearchResultsChanged_eq[OF e] handleSearchResultsChanged_p0_eq[OF e]
    by simp
qed

theorem refresh_never_moves_cursor_witness:
  "treeLike (dom shrinkingWorld)
   \<and> (\<exists>w'. handleSearchResultsChanged 2 shrinkingWorld = Some w'
          \<and> selectedIndex (state w') = Num 4 \<and> searchResults (state w') = [])
   \<and> (\<exists>w0. handleSearchResultsChanged_p0 2 shrinkingWorld = Some w0
          \<and> selectedIndex (state w0) = Num 4 \<and> searchResults (state w0) = [])"
proof -
  have t: "treeLike (dom shrinkingWorld)"
    using samplePage_treeLike
    by (simp add: shrinkingWorld_def emptyPage_def treeLike_def parentRel_def)
  have e: "extractSearchResults (dom shrinkingWorld) 2 (effects shrinkingWorld) = Some ([], [])"
    by (simp add: shrinkingWorld_def emptyPage_def extractSearchResults_def)
  have s: "selectedIndex (state shrinkingWorld) = Num 4" by (simp add: shrinkingWorld_def)
  from refresh_never_moves_cursor[OF t, of 2] show ?thesis
    unfolding e s using t by auto
qed

end
